theory Spec2Isabelle
  imports Complex_Main "HOL-Library.Sublist" "HOL-Library.Multiset"
begin

section \<open>Text helpers\<close>

text \<open>
  Strings are lists of characters. Names and search terms are taken to be ASCII text, so a
  character is one \<^typ>\<open>char\<close> and letter case is the case of the 26 Latin letters.
\<close>

definition upper_letters :: string where
  "upper_letters = ''ABCDEFGHIJKLMNOPQRSTUVWXYZ''"

definition lower_letters :: string where
  "lower_letters = ''abcdefghijklmnopqrstuvwxyz''"

definition to_lower :: "char \<Rightarrow> char" where
  "to_lower c = (case map_of (zip upper_letters lower_letters) c of Some l \<Rightarrow> l | None \<Rightarrow> c)"

definition lower :: "string \<Rightarrow> string" where
  "lower s = map to_lower s"

text \<open>\<open>is_substring t s\<close>: the text \<open>t\<close> occurs in \<open>s\<close> as a contiguous run of characters.\<close>

fun is_substring :: "string \<Rightarrow> string \<Rightarrow> bool" where
  "is_substring t [] = (t = [])"
| "is_substring t (c # cs) = (prefix t (c # cs) \<or> is_substring t cs)"

text \<open>Decimal rendering of a natural number, as JavaScript prints an integer-valued number.\<close>

fun string_of_nat :: "nat \<Rightarrow> string" where
  "string_of_nat n =
     (if n < 10 then [''0123456789'' ! n]
      else string_of_nat (n div 10) @ [''0123456789'' ! (n mod 10)])"

declare string_of_nat.simps [simp del]


section \<open>formatFileSize\<close>

text \<open>
  \<^verbatim>\<open>
  const formatFileSize = (bytes: number): string => {
    if (bytes === 0) return '0 Bytes';
    const k = 1024;
    const sizes = ['Bytes', 'KB', 'MB', 'GB'];
    const i = Math.floor(Math.log(bytes) / Math.log(k));
    return parseFloat((bytes / Math.pow(k, i)).toFixed(2)) + ' ' + sizes[i];
  };
  \<close>
  The argument is a byte count, a natural number. \<open>log1024\<close> is
  \<open>Math.floor(Math.log(bytes) / Math.log(1024))\<close>: the integer logarithm to base 1024,
  which is the integer part of the floating-point quotient as long as the byte count is
  below \<open>1024 ^ 5 - 3\<close> (the quotient is exact at the powers of 1024, and up to there
  it is farther from the next integer than its rounding error). From \<open>1024 ^ 5 - 3\<close> on
  the rounding of the two logarithms decides the unit, and \<open>log1024\<close> does not describe
  the code; nothing below uses it there.
  \<open>bytes / Math.pow(k, i)\<close> divides by a power of two, which a binary floating-point
  number represents exactly; \<open>toFixed(2)\<close> rounds that quotient to hundredths, a tie going
  up, which \<open>toFixed2\<close> returns as the number of hundredths; \<open>parseFloat\<close> followed by
  string concatenation prints the value without trailing zeros (\<open>number_of_hundredths\<close>).
  \<open>sizes[i]\<close> beyond the end of the array is \<open>undefined\<close>, which concatenation prints as
  the text \<open>undefined\<close>.
\<close>

fun log1024 :: "nat \<Rightarrow> nat" where
  "log1024 n = (if n < 1024 then 0 else Suc (log1024 (n div 1024)))"

declare log1024.simps [simp del]

definition sizes :: "string list" where
  "sizes = [''Bytes'', ''KB'', ''MB'', ''GB'']"

definition sizes_at :: "nat \<Rightarrow> string" where
  "sizes_at i = (if i < length sizes then sizes ! i else ''undefined'')"

definition toFixed2 :: "nat \<Rightarrow> nat \<Rightarrow> nat" where
  "toFixed2 bytes d = (2 * 100 * bytes + d) div (2 * d)"

definition number_of_hundredths :: "nat \<Rightarrow> string" where
  "number_of_hundredths h =
     (if h mod 100 = 0 then string_of_nat (h div 100)
      else if h mod 10 = 0 then string_of_nat (h div 100) @ ''.'' @ string_of_nat (h mod 100 div 10)
      else string_of_nat (h div 100) @ ''.'' @ string_of_nat (h mod 100 div 10)
             @ string_of_nat (h mod 10))"

definition formatFileSize :: "nat \<Rightarrow> string" where
  "formatFileSize bytes =
     (if bytes = 0 then ''0 Bytes''
      else let i = log1024 bytes
           in number_of_hundredths (toFixed2 bytes (1024 ^ i)) @ '' '' @ sizes_at i)"


section \<open>The table \<open>pdf_files\<close>\<close>

text \<open>
  \<^verbatim>\<open>
  CREATE TABLE IF NOT EXISTS pdf_files (
    id UUID PRIMARY KEY DEFAULT gen_random_uuid(),
    custom_name VARCHAR(255) NOT NULL,
    original_name VARCHAR(255) NOT NULL,
    file_name VARCHAR(255) NOT NULL,
    file_path VARCHAR(500) NOT NULL,
    file_size BIGINT NOT NULL,
    mime_type VARCHAR(100) NOT NULL,
    upload_date TIMESTAMP DEFAULT CURRENT_TIMESTAMP,
    updated_at TIMESTAMP DEFAULT CURRENT_TIMESTAMP
  );
  \<close>
  The table is the list of its rows. A value of the column type UUID is held as the text the
  database prints for it: 32 lower-case hexadecimal digits grouped 8-4-4-4-12. Timestamps
  are instants on an integer time line. The column \<open>id\<close> is the field \<open>row_id\<close>.
\<close>

record pdf_row =
  row_id :: string
  custom_name :: string
  original_name :: string
  file_name :: string
  file_path :: string
  file_size :: nat
  mime_type :: string
  upload_date :: int
  updated_at :: int

text \<open>
  The statements of the server fail in the database for reasons that depend on the
  statement and its values alone: a text that is not a UUID or a number where one is
  expected, a text too long for its column, a second row with the same primary key, a
  negative LIMIT or OFFSET, a number outside the range of BIGINT, a parameter whose type
  the statement does not determine, and a number of values other than the number of
  parameters. Failures of the connection or the disk are outside this model.
\<close>

datatype db_error =
    Invalid_text_representation
  | String_data_right_truncation
  | Unique_violation
  | Invalid_row_count_in_limit
  | Invalid_row_count_in_offset
  | Numeric_value_out_of_range
  | Indeterminate_datatype
  | Protocol_violation

subsection \<open>Parameters\<close>

text \<open>
  \<^verbatim>\<open>export const query = (text: string, params?: any[]) => pool.query(text, params);\<close>
  A statement mentions its parameters as \<open>$1\<close>, \<open>$2\<close>, ...; the values are given
  beside it, the first for \<open>$1\<close>. The database learns the type of a parameter from the
  place where the statement mentions it, so it prepares a statement only if that mentions
  every parameter up to the highest one, and it binds the values only if there is one for
  each parameter. \<open>bind refs vals\<close> is the error, if any, for a statement that mentions the
  parameters \<open>refs\<close> and comes with the values \<open>vals\<close>. A value is a number or a text.
  A number travels as the text that JavaScript prints for it: its decimal digits, and from
  \<open>10 ^ 21\<close> on a text with an exponent. A number bound to a text parameter is that
  text. A number bound to a BIGINT parameter (\<open>bigint_value\<close>) is refused when its text
  has an exponent and when it is outside the range of BIGINT, from \<open>- (2 ^ 63)\<close> to
  below \<open>2 ^ 63\<close>; this server binds no text to a BIGINT parameter.
\<close>

datatype sql_value = Number int | Text string

definition bind :: "nat list \<Rightarrow> sql_value list \<Rightarrow> db_error option" where
  "bind refs vals =
     (let highest = fold max refs 0
      in if \<not> list_all (\<lambda>i. i \<in> set refs) [1..<Suc highest] then Some Indeterminate_datatype
         else if length vals \<noteq> highest then Some Protocol_violation
         else None)"

definition string_of_int :: "int \<Rightarrow> string" where
  "string_of_int i = (if i < 0 then ''-'' @ string_of_nat (nat (- i)) else string_of_nat (nat i))"

definition text_value :: "sql_value \<Rightarrow> string" where
  "text_value v = (case v of Number i \<Rightarrow> string_of_int i | Text t \<Rightarrow> t)"

definition bigint_value :: "sql_value \<Rightarrow> db_error + int" where
  "bigint_value v =
     (case v of
        Text t \<Rightarrow> Inl Invalid_text_representation
      | Number i \<Rightarrow>
          if 10 ^ 21 \<le> \<bar>i\<bar> then Inl Invalid_text_representation
          else if i < - (2 ^ 63) \<or> 2 ^ 63 \<le> i then Inl Numeric_value_out_of_range
          else Inr i)"

subsection \<open>Reading a UUID\<close>

text \<open>
  The database reads a UUID from text as 16 bytes of two hexadecimal digits each, in either
  case, optionally surrounded by braces, with an optional hyphen after any group of four
  digits. \<open>uuid_digits n src\<close> reads the last \<open>n\<close> of the 16 bytes.
\<close>

definition is_xdigit :: "char \<Rightarrow> bool" where
  "is_xdigit c = (c \<in> set ''0123456789abcdefABCDEF'')"

fun uuid_digits :: "nat \<Rightarrow> string \<Rightarrow> (string \<times> string) option" where
  "uuid_digits 0 src = Some ([], src)"
| "uuid_digits (Suc n) (a # b # src) =
     (if is_xdigit a \<and> is_xdigit b then
        (let i = 15 - n;
             src' = (if i mod 2 = 1 \<and> i < 15 \<and> take 1 src = ''-'' then drop 1 src else src)
         in case uuid_digits n src' of
              None \<Rightarrow> None
            | Some (ds, rest) \<Rightarrow> Some (to_lower a # to_lower b # ds, rest))
      else None)"
| "uuid_digits (Suc n) src = None"

definition uuid_out :: "string \<Rightarrow> string" where
  "uuid_out ds = take 8 ds @ ''-'' @ take 4 (drop 8 ds) @ ''-'' @ take 4 (drop 12 ds)
                   @ ''-'' @ take 4 (drop 16 ds) @ ''-'' @ drop 20 ds"

definition uuid_in :: "string \<Rightarrow> string option" where
  "uuid_in s =
     (let braces = (take 1 s = ''{'');
          src = (if braces then drop 1 s else s)
      in case uuid_digits 16 src of
           None \<Rightarrow> None
         | Some (ds, rest) \<Rightarrow>
             if rest = (if braces then ''}'' else []) then Some (uuid_out ds) else None)"

subsection \<open>VARCHAR(n)\<close>

text \<open>
  A text longer than \<open>n\<close> characters is refused by a column of type VARCHAR(n), unless all
  the characters beyond the \<open>n\<close>-th are spaces: then the first \<open>n\<close> are stored.
\<close>

definition fits :: "nat \<Rightarrow> string \<Rightarrow> bool" where
  "fits n s = (\<forall>c \<in> set (drop n s). c = CHR '' '')"

definition varchar :: "nat \<Rightarrow> string \<Rightarrow> string" where
  "varchar n s = take n s"

subsection \<open>INSERT\<close>

text \<open>
  \<^verbatim>\<open>
  INSERT INTO pdf_files
    (id, custom_name, original_name, file_name, file_path, file_size, mime_type)
  VALUES ($1, $2, $3, $4, $5, $6, $7) RETURNING *
  \<close>
  \<open>now\<close> is CURRENT_TIMESTAMP at the insert, the default of both timestamp columns, and
  \<open>new_row\<close> the row that the statement adds, with the UUID \<open>u\<close> read from \<open>$1\<close>.
\<close>

definition new_row ::
  "string \<Rightarrow> int \<Rightarrow> string \<Rightarrow> string \<Rightarrow> string \<Rightarrow> string \<Rightarrow> nat \<Rightarrow> string \<Rightarrow> pdf_row" where
  "new_row u now p2 p3 p4 p5 p6 p7 =
     \<lparr>row_id = u, custom_name = varchar 255 p2, original_name = varchar 255 p3,
      file_name = varchar 255 p4, file_path = varchar 500 p5, file_size = p6,
      mime_type = varchar 100 p7, upload_date = now, updated_at = now\<rparr>"

definition insert_pdf_file ::
  "pdf_row list \<Rightarrow> int \<Rightarrow> string \<Rightarrow> string \<Rightarrow> string \<Rightarrow> string \<Rightarrow> string \<Rightarrow> nat \<Rightarrow> string
     \<Rightarrow> db_error + pdf_row list" where
  "insert_pdf_file tbl now p1 p2 p3 p4 p5 p6 p7 =
     (case uuid_in p1 of
        None \<Rightarrow> Inl Invalid_text_representation
      | Some u \<Rightarrow>
          if \<not> (fits 255 p2 \<and> fits 255 p3 \<and> fits 255 p4 \<and> fits 500 p5 \<and> fits 100 p7)
          then Inl String_data_right_truncation
          else if u \<in> set (map row_id tbl) then Inl Unique_violation
          else Inr (tbl @ [new_row u now p2 p3 p4 p5 p6 p7]))"

subsection \<open>ILIKE\<close>

text \<open>
  \<open>like_match pattern text\<close> is the database's LIKE: in the pattern \<open>%\<close> stands for any run
  of characters, \<open>_\<close> for any one character, and a backslash makes the character after it
  stand for itself. A pattern that ends in a lone backslash makes the database raise an
  error when matching reaches it; \<open>dangling_escape\<close> recognises such patterns, and the
  patterns of this server never are (they end in \<open>%\<close>). ILIKE is LIKE on the lower-cased
  pattern and text.
\<close>

fun like_match :: "string \<Rightarrow> string \<Rightarrow> bool" where
  "like_match [] t = (t = [])"
| "like_match (p # ps) [] = (p = CHR ''%'' \<and> like_match ps [])"
| "like_match (p # ps) (c # cs) =
     (if p = CHR ''%'' then like_match ps (c # cs) \<or> like_match (p # ps) cs
      else if p = CHR ''_'' then like_match ps cs
      else if p = CHR 0x5C then (case ps of [] \<Rightarrow> False | q # qs \<Rightarrow> c = q \<and> like_match qs cs)
      else c = p \<and> like_match ps cs)"

fun dangling_escape :: "string \<Rightarrow> bool" where
  "dangling_escape [] = False"
| "dangling_escape [p] = (p = CHR 0x5C)"
| "dangling_escape (p # q # ps) =
     (if p = CHR 0x5C then dangling_escape ps else dangling_escape (q # ps))"

definition ilike :: "string \<Rightarrow> string \<Rightarrow> bool" where
  "ilike t pattern = like_match (lower pattern) (lower t)"

subsection \<open>SELECT\<close>

text \<open>
  \<^verbatim>\<open>
  SELECT * FROM pdf_files ${whereClause} ORDER BY upload_date DESC LIMIT $1 OFFSET $2
  SELECT COUNT(*) FROM pdf_files ${whereClause}
  \<close>
  where \<open>whereClause\<close> is the empty text (\<open>No_where\<close>) or, for the parameter \<open>$k\<close>, the
  text \<^verbatim>\<open>WHERE custom_name ILIKE $k OR original_name ILIKE $k\<close> (\<open>Where_ilike k\<close>).
  ORDER BY \<open>upload_date\<close> DESC leaves open in which order rows of the same
  \<open>upload_date\<close> come; the database decides it for each statement. \<open>tie\<close> is that
  decision, a rank of the rows: rows of the same \<open>upload_date\<close> come by ascending rank.
  The values of LIMIT and OFFSET are converted when they are bound, \<open>$1\<close> first; a
  negative OFFSET is found before a negative LIMIT when the statement runs.
\<close>

datatype where_text = No_where | Where_ilike nat

definition where_refs :: "where_text \<Rightarrow> nat list" where
  "where_refs w = (case w of No_where \<Rightarrow> [] | Where_ilike k \<Rightarrow> [k, k])"

definition where_holds :: "where_text \<Rightarrow> sql_value list \<Rightarrow> pdf_row \<Rightarrow> bool" where
  "where_holds w vals r =
     (case w of
        No_where \<Rightarrow> True
      | Where_ilike k \<Rightarrow> ilike (custom_name r) (text_value (vals ! (k - 1)))
                         \<or> ilike (original_name r) (text_value (vals ! (k - 1))))"

definition order_by_upload_date_desc :: "(pdf_row \<Rightarrow> nat) \<Rightarrow> pdf_row list \<Rightarrow> pdf_row list" where
  "order_by_upload_date_desc tie rows = sort_key (\<lambda>r. - upload_date r) (sort_key tie rows)"

definition select_files ::
  "(pdf_row \<Rightarrow> nat) \<Rightarrow> pdf_row list \<Rightarrow> where_text \<Rightarrow> sql_value list
     \<Rightarrow> db_error + pdf_row list" where
  "select_files tie tbl w vals =
     (case bind ([1, 2] @ where_refs w) vals of
        Some e \<Rightarrow> Inl e
      | None \<Rightarrow>
          (case bigint_value (vals ! 0) of
             Inl e \<Rightarrow> Inl e
           | Inr p1 \<Rightarrow>
               (case bigint_value (vals ! 1) of
                  Inl e \<Rightarrow> Inl e
                | Inr p2 \<Rightarrow>
                    if p2 < 0 then Inl Invalid_row_count_in_offset
                    else if p1 < 0 then Inl Invalid_row_count_in_limit
                    else Inr (take (nat p1) (drop (nat p2)
                           (order_by_upload_date_desc tie (filter (where_holds w vals) tbl)))))))"

definition select_count :: "pdf_row list \<Rightarrow> where_text \<Rightarrow> sql_value list \<Rightarrow> db_error + int" where
  "select_count tbl w vals =
     (case bind (where_refs w) vals of
        Some e \<Rightarrow> Inl e
      | None \<Rightarrow> Inr (int (length (filter (where_holds w vals) tbl))))"

text \<open>
  \<^verbatim>\<open>SELECT * FROM pdf_files WHERE id = $1\<close> and
  \<^verbatim>\<open>DELETE FROM pdf_files WHERE id = $1\<close>: the parameter is read as a UUID. These two
  statements and the INSERT mention each of their parameters and come with one value for
  each, so they take their values as arguments.
\<close>

definition select_by_id :: "pdf_row list \<Rightarrow> string \<Rightarrow> db_error + pdf_row list" where
  "select_by_id tbl p1 =
     (case uuid_in p1 of
        None \<Rightarrow> Inl Invalid_text_representation
      | Some u \<Rightarrow> Inr (filter (\<lambda>r. row_id r = u) tbl))"

definition delete_by_id :: "pdf_row list \<Rightarrow> string \<Rightarrow> db_error + pdf_row list" where
  "delete_by_id tbl p1 =
     (case uuid_in p1 of
        None \<Rightarrow> Inl Invalid_text_representation
      | Some u \<Rightarrow> Inr (filter (\<lambda>r. row_id r \<noteq> u) tbl))"


section \<open>The server\<close>

text \<open>
  The state of the server is the table and the set of paths under which a blob exists on
  disk. The configuration holds \<open>UPLOAD_DIR\<close> (in the form in which it prefixes a stored
  path) and \<open>MAX_FILE_SIZE\<close>, whose default is 10485760.
\<close>

record server =
  catalog :: "pdf_row list"
  disk :: "string set"

record config =
  UPLOAD_DIR :: string
  MAX_FILE_SIZE :: nat

definition default_config :: config where
  "default_config = \<lparr>UPLOAD_DIR = ''uploads'', MAX_FILE_SIZE = 10485760\<rparr>"

text \<open>
  What the server does not compute itself is read from the environment, by the number of the
  file in the request: the clock and the random number of the storage name, the identifier
  drawn by \<open>uuidv4()\<close>, CURRENT_TIMESTAMP at the insert and \<open>new Date()\<close> of the result.
\<close>

record env =
  Date_now :: "nat \<Rightarrow> nat"
  random_1E9 :: "nat \<Rightarrow> nat"
  uuidv4 :: "nat \<Rightarrow> string"
  CURRENT_TIMESTAMP :: "nat \<Rightarrow> int"
  new_Date :: "nat \<Rightarrow> int"

subsection \<open>Responses\<close>

text \<open>
  The texts of the responses, in the order in which they appear in the server:
  the message of the error raised by \<open>fileFilter\<close>; "Arquivo muito grande. Maximo 10MB
  permitido."; the message of any other error that reaches \<open>handleUploadError\<close>;
  "Nenhum arquivo selecionado"; "Formato invalido para nomes customizados";
  "n arquivo(s) upload realizado com sucesso!"; "Erro interno no servidor";
  "Erro ao carregar arquivos"; "Arquivo nao encontrado"; "Arquivo fisico nao encontrado";
  "Arquivo deletado com sucesso"; "Erro ao deletar arquivo"; and the empty text.
\<close>

datatype multer_code = LIMIT_FILE_SIZE | LIMIT_UNEXPECTED_FILE

datatype msg =
    Apenas_arquivos_PDF
  | Arquivo_muito_grande
  | Multer_message multer_code
  | Nenhum_arquivo_selecionado
  | Formato_invalido
  | Upload_realizado nat
  | Erro_interno
  | Erro_ao_carregar
  | Arquivo_nao_encontrado
  | Arquivo_fisico_nao_encontrado
  | Arquivo_deletado
  | Erro_ao_deletar
  | Empty_text

datatype upload_error = MulterError multer_code | Error msg

record UploadedFile =
  file_id :: string
  customName :: string
  originalName :: string
  fileName :: string
  fileSize :: string
  uploadDate :: int
  downloadUrl :: string

text \<open>
  A JavaScript number that results from a division: an integer, Infinity or NaN.
\<close>

datatype js_number = Num int | Infinity | NaN

record pagination =
  page :: int
  limit :: int
  total :: int
  totalPages :: js_number

text \<open>
  One record holds the status and the JSON body of every response: \<open>message\<close>,
  \<open>pagination\<close> and \<open>error\<close> are \<open>None\<close>, and \<open>files\<close> is empty, where the body
  has no such key. \<open>uploadDate\<close> is the instant that the body prints in the locale pt-BR.
\<close>

record response =
  status :: nat
  success :: bool
  message :: "msg option"
  files :: "UploadedFile list"
  pagination :: "pagination option"
  error :: "msg option"

subsection \<open>Receiving the files (multer)\<close>

text \<open>
  A part of the multipart request is a file with its declared name, its MIME type and its
  number of bytes. A stored file has, besides, the name and the path under which it was
  written.
\<close>

record part =
  originalname :: string
  mimetype :: string
  fsize :: nat

record File = part +
  filename :: string
  path :: string

text \<open>
  \<^verbatim>\<open>
  filename: (req, file, cb) => {
    const uniqueSuffix = Date.now() + '-' + Math.round(Math.random() * 1E9);
    const safeName = file.originalname.replace(/\s+/g, '_');
    cb(null, 'pdf-' + uniqueSuffix + '-' + safeName);
  }
  \<close>
\<close>

definition is_space :: "char \<Rightarrow> bool" where
  "is_space c = (c \<in> set [CHR '' '', CHR 0x09, CHR 0x0A, CHR 0x0B, CHR 0x0C, CHR 0x0D])"

function replace_spaces :: "string \<Rightarrow> string" where
  "replace_spaces [] = []"
| "replace_spaces (c # cs) =
     (if is_space c then CHR ''_'' # replace_spaces (dropWhile is_space cs)
      else c # replace_spaces cs)"
  by pat_completeness auto
termination
  by (relation "measure length") (auto simp: length_dropWhile_le less_Suc_eq_le)

definition storage_filename :: "env \<Rightarrow> nat \<Rightarrow> string \<Rightarrow> string" where
  "storage_filename ev k name =
     ''pdf-'' @ string_of_nat (Date_now ev k) @ ''-'' @ string_of_nat (random_1E9 ev k)
       @ ''-'' @ replace_spaces name"

definition stored :: "config \<Rightarrow> env \<Rightarrow> nat \<Rightarrow> part \<Rightarrow> File" where
  "stored cfg ev k p =
     (let name = storage_filename ev k (originalname p)
      in part.extend p \<lparr>filename = name, path = UPLOAD_DIR cfg @ ''/'' @ name\<rparr>)"

text \<open>
  \<^verbatim>\<open>
  const fileFilter = (req, file, cb) => {
    const allowedMimes = ['application/pdf', 'application/x-pdf'];
    if (allowedMimes.includes(file.mimetype)) { cb(null, true); }
    else { cb(new Error('Apenas arquivos PDF sao permitidos!')); }
  };
  \<close>
\<close>

definition allowedMimes :: "string list" where
  "allowedMimes = [''application/pdf'', ''application/x-pdf'']"

definition fileFilter :: "part \<Rightarrow> upload_error + bool" where
  "fileFilter file =
     (if mimetype file \<in> set allowedMimes then Inr True else Inl (Error Apenas_arquivos_PDF))"

text \<open>
  \<^verbatim>\<open>
  const upload = multer({ storage, fileFilter, limits: { fileSize: MAX_FILE_SIZE } });
  ... upload.array('pdfFiles', 10) ...
  \<close>
  The middleware takes the parts in the order of the request. A part beyond the tenth is
  the error \<open>LIMIT_UNEXPECTED_FILE\<close>; a part that \<open>fileFilter\<close> refuses is the error of
  the filter; a part of more than \<open>MAX_FILE_SIZE\<close> bytes is the error \<open>LIMIT_FILE_SIZE\<close>,
  raised while it is being written. At the first error the middleware stops. The result is
  the error, if any, and the files written so far, the last of them cut short when it was
  too large. \<open>multer\<close> then removes the files it wrote when there was an error, and
  otherwise hands them to the route as \<open>req.files\<close>.
\<close>

fun upload_array ::
  "config \<Rightarrow> env \<Rightarrow> nat \<Rightarrow> nat \<Rightarrow> part list \<Rightarrow> File list \<Rightarrow> upload_error option \<times> File list" where
  "upload_array cfg ev filesLeft k [] written = (None, written)"
| "upload_array cfg ev filesLeft k (p # ps) written =
     (if filesLeft = 0 then (Some (MulterError LIMIT_UNEXPECTED_FILE), written)
      else case fileFilter p of
             Inl e \<Rightarrow> (Some e, written)
           | Inr _ \<Rightarrow>
               if MAX_FILE_SIZE cfg < fsize p
               then (Some (MulterError LIMIT_FILE_SIZE), written @ [stored cfg ev k p])
               else upload_array cfg ev (filesLeft - 1) (Suc k) ps (written @ [stored cfg ev k p]))"

definition multer :: "config \<Rightarrow> env \<Rightarrow> server \<Rightarrow> part list \<Rightarrow> server \<times> (upload_error + File list)" where
  "multer cfg ev s parts =
     (case upload_array cfg ev 10 0 parts [] of
        (Some e, written) \<Rightarrow> (s\<lparr>disk := disk s - set (map path written)\<rparr>, Inl e)
      | (None, written) \<Rightarrow> (s\<lparr>disk := disk s \<union> set (map path written)\<rparr>, Inr written))"

text \<open>
  \<^verbatim>\<open>
  const handleUploadError = (error, req, res, next) => {
    if (error instanceof multer.MulterError) {
      if (error.code === 'LIMIT_FILE_SIZE') {
        return res.status(400).json({ success: false, message: '', files: [],
          error: 'Arquivo muito grande. Maximo 10MB permitido.' });
      }
    }
    res.status(400).json({ success: false, message: '', files: [], error: error.message });
  };
  \<close>
\<close>

definition error_message :: "upload_error \<Rightarrow> msg" where
  "error_message e = (case e of MulterError c \<Rightarrow> Multer_message c | Error m \<Rightarrow> m)"

definition upload_failure :: "nat \<Rightarrow> msg \<Rightarrow> response" where
  "upload_failure code m =
     \<lparr>status = code, success = False, message = Some Empty_text, files = [],
      pagination = None, error = Some m\<rparr>"

definition handleUploadError :: "upload_error \<Rightarrow> response" where
  "handleUploadError e =
     (if e = MulterError LIMIT_FILE_SIZE then upload_failure 400 Arquivo_muito_grande
      else upload_failure 400 (error_message e))"

subsection \<open>POST /api/upload\<close>

text \<open>
  \<^verbatim>\<open>
  const customName = customNamesArray[i] || file.originalname.replace('.pdf', '');
  \<close>
  \<open>replace_first pat rep s\<close> is \<open>s.replace(pat, rep)\<close> for a text \<open>pat\<close>: the first
  occurrence of \<open>pat\<close> in \<open>s\<close> becomes \<open>rep\<close>. An index beyond the array gives
  \<open>undefined\<close>, which \<open>||\<close> passes over as it passes over the empty text.
\<close>

fun replace_first :: "string \<Rightarrow> string \<Rightarrow> string \<Rightarrow> string" where
  "replace_first pat rep [] = (if pat = [] then rep else [])"
| "replace_first pat rep (c # cs) =
     (if prefix pat (c # cs) then rep @ drop (length pat) (c # cs)
      else c # replace_first pat rep cs)"

definition customName_of :: "string list \<Rightarrow> nat \<Rightarrow> File \<Rightarrow> string" where
  "customName_of customNamesArray i file =
     (if i < length customNamesArray \<and> customNamesArray ! i \<noteq> [] then customNamesArray ! i
      else replace_first ''.pdf'' [] (originalname file))"

text \<open>
  The form field \<open>customNames\<close> is known by what the server does with it: it is absent or
  empty, or \<open>JSON.parse\<close> throws on it, or \<open>JSON.parse\<close> returns \<open>null\<close>, or it
  returns an array of texts, the type the server declares for \<open>customNamesArray\<close>. The
  loop reads the value only as \<open>customNamesArray[i] || ...\<close>, so a value of another
  shape stands for the array of the elements that it has: a number, a boolean or an
  object without numbered fields for the empty array, a text for the array of its characters, and an element that is
  \<open>undefined\<close>, \<open>null\<close>, \<open>false\<close> or \<open>0\<close> for the empty text. On \<open>null\<close> the
  expression \<open>customNamesArray[i]\<close> throws, before the first insert. Elements that are
  neither texts nor falsy are outside this model.
  \<^verbatim>\<open>
  try { customNamesArray = customNames ? JSON.parse(customNames) : []; }
  catch (e) { return res.status(400).json({ ... error: 'Formato invalido ...' }); }
  \<close>
  \<open>customNamesArray_of\<close> is the array, or \<open>None\<close> when there is none: \<open>JSON.parse\<close>
  has thrown or has returned \<open>null\<close>.
\<close>

datatype customNames = Absent | Malformed | Parsed_null | Parsed "string list"

record upload_request =
  pdfFiles :: "part list"
  customNames :: customNames

definition download_url :: "string \<Rightarrow> string" where
  "download_url i = ''/api/download/'' @ i"

text \<open>
  The loop over \<open>files\<close>: \<open>i\<close> is the index of the first of the remaining files. An insert
  that fails throws, which leaves the loop with the rows inserted so far.
\<close>

fun upload_loop ::
  "env \<Rightarrow> string list \<Rightarrow> nat \<Rightarrow> File list \<Rightarrow> pdf_row list \<Rightarrow> UploadedFile list
     \<Rightarrow> pdf_row list \<times> (db_error + UploadedFile list)" where
  "upload_loop ev customNamesArray i [] tbl results = (tbl, Inr results)"
| "upload_loop ev customNamesArray i (file # rest) tbl results =
     (let customName = customName_of customNamesArray i file;
          fileId = uuidv4 ev i
      in case insert_pdf_file tbl (CURRENT_TIMESTAMP ev i) fileId customName
                (originalname file) (filename file) (path file) (fsize file) (mimetype file) of
           Inl e \<Rightarrow> (tbl, Inl e)
         | Inr tbl' \<Rightarrow>
             upload_loop ev customNamesArray (Suc i) rest tbl'
               (results @ [\<lparr>file_id = fileId, customName = customName,
                             originalName = originalname file, fileName = filename file,
                             fileSize = formatFileSize (fsize file),
                             uploadDate = new_Date ev i,
                             downloadUrl = download_url fileId\<rparr>]))"

definition customNamesArray_of :: "customNames \<Rightarrow> string list option" where
  "customNamesArray_of field =
     (case field of
        Absent \<Rightarrow> Some []
      | Malformed \<Rightarrow> None
      | Parsed_null \<Rightarrow> None
      | Parsed names \<Rightarrow> Some names)"

definition upload_handler :: "env \<Rightarrow> server \<Rightarrow> File list \<Rightarrow> customNames \<Rightarrow> server \<times> response" where
  "upload_handler ev s req_files field =
     (if req_files = [] then (s, upload_failure 400 Nenhum_arquivo_selecionado)
      else if field = Malformed then (s, upload_failure 400 Formato_invalido)
      else case customNamesArray_of field of
             None \<Rightarrow> (s, upload_failure 500 Erro_interno)
           | Some customNamesArray \<Rightarrow>
               (case upload_loop ev customNamesArray 0 req_files (catalog s) [] of
                  (tbl, Inl e) \<Rightarrow> (s\<lparr>catalog := tbl\<rparr>, upload_failure 500 Erro_interno)
                | (tbl, Inr results) \<Rightarrow>
                    (s\<lparr>catalog := tbl\<rparr>,
                     \<lparr>status = 200, success = True,
                      message = Some (Upload_realizado (length results)),
                      files = results, pagination = None, error = None\<rparr>)))"

definition post_upload :: "config \<Rightarrow> env \<Rightarrow> server \<Rightarrow> upload_request \<Rightarrow> server \<times> response" where
  "post_upload cfg ev s req =
     (case multer cfg ev s (pdfFiles req) of
        (s', Inl e) \<Rightarrow> (s', handleUploadError e)
      | (s', Inr req_files) \<Rightarrow> upload_handler ev s' req_files (customNames req))"

subsection \<open>GET /api/files\<close>

text \<open>
  \<open>pageNum\<close> and \<open>limitNum\<close> are the integers that \<open>parseInt\<close> reads from the query
  parameters \<open>page\<close> and \<open>limit\<close> (by default 1 and 10). The code computes with them
  in floating point, which is the arithmetic of the integers as long as the numbers stay
  below \<open>2 ^ 53\<close>; the properties of the listing that depend on the numbers are stated
  within this bound. The parameter \<open>search\<close> is a
  text or absent; \<open>if (search)\<close> holds for a text that is not empty. The database returns a
  BIGINT as text, so \<open>formatFileSize\<close> receives the size of a row as a text of digits: its
  test \<open>bytes === 0\<close> is then false also for the text \<open>0\<close>, and the result for that text
  is \<open>NaN undefined\<close>; for every other size it is the result for the number.
\<close>

definition formatFileSize_text :: "nat \<Rightarrow> string" where
  "formatFileSize_text n = (if n = 0 then ''NaN undefined'' else formatFileSize n)"

definition uploaded_file :: "pdf_row \<Rightarrow> UploadedFile" where
  "uploaded_file file =
     \<lparr>file_id = row_id file, customName = custom_name file,
      originalName = original_name file, fileName = file_name file,
      fileSize = formatFileSize_text (file_size file), uploadDate = upload_date file,
      downloadUrl = download_url (row_id file)\<rparr>"

definition Math_ceil_div :: "int \<Rightarrow> int \<Rightarrow> js_number" where
  "Math_ceil_div a b =
     (if b = 0 then (if a = 0 then NaN else Infinity)
      else Num \<lceil>real_of_int a / real_of_int b\<rceil>)"

text \<open>
  \<^verbatim>\<open>
  const offset = (pageNum - 1) * limitNum;
  let whereClause = '';
  let queryParams: any[] = [limitNum, offset];
  if (search) {
    whereClause = `WHERE custom_name ILIKE $3 OR original_name ILIKE $3`;
    queryParams.push(`%${search}%`);
  }
  const result = await query(`SELECT * FROM pdf_files ${whereClause}
     ORDER BY upload_date DESC LIMIT $1 OFFSET $2`, queryParams);
  const countResult = await query(`SELECT COUNT(*) FROM pdf_files ${whereClause}`,
     search ? [`%${search}%`] : []);
  \<close>
  A statement that fails throws, and the \<open>catch\<close> of the route answers for both.
  \<open>tie\<close> is the order that the database gives to rows of the same \<open>upload_date\<close> in
  the page statement.
  \<open>truthy\<close> is the test \<open>if (search)\<close>, and \<open>pattern\<close> the template text
  \<^verbatim>\<open>`%${search}%`\<close>.
\<close>

definition truthy :: "string option \<Rightarrow> bool" where
  "truthy search = (case search of None \<Rightarrow> False | Some t \<Rightarrow> t \<noteq> [])"

definition pattern :: "string option \<Rightarrow> string" where
  "pattern search =
     (case search of None \<Rightarrow> ''%undefined%'' | Some t \<Rightarrow> ''%'' @ t @ ''%'')"

definition files_failure :: response where
  "files_failure =
     \<lparr>status = 500, success = False, message = None, files = [],
      pagination = Some \<lparr>page = 1, limit = 10, total = 0, totalPages = Num 0\<rparr>,
      error = Some Erro_ao_carregar\<rparr>"

definition get_files ::
  "(pdf_row \<Rightarrow> nat) \<Rightarrow> server \<Rightarrow> string option \<Rightarrow> int \<Rightarrow> int \<Rightarrow> response" where
  "get_files tie s search pageNum limitNum =
     (let offset = (pageNum - 1) * limitNum;
          whereClause = (if truthy search then Where_ilike 3 else No_where);
          queryParams = [Number limitNum, Number offset]
                          @ (if truthy search then [Text (pattern search)] else [])
      in case select_files tie (catalog s) whereClause queryParams of
           Inl e \<Rightarrow> files_failure
         | Inr rows \<Rightarrow>
             (case select_count (catalog s) whereClause
                     (if truthy search then [Text (pattern search)] else []) of
                Inl e \<Rightarrow> files_failure
              | Inr counted \<Rightarrow>
                  \<lparr>status = 200, success = True, message = None,
                   files = map uploaded_file rows,
                   pagination = Some \<lparr>page = pageNum, limit = limitNum, total = counted,
                                      totalPages = Math_ceil_div counted limitNum\<rparr>,
                   error = None\<rparr>))"

subsection \<open>GET /api/download/:id\<close>

text \<open>
  The answer is a JSON body or the blob at a path, sent under a file name.
\<close>

datatype download_response = Json response | Download string string

definition plain_failure :: "nat \<Rightarrow> msg \<Rightarrow> response" where
  "plain_failure code m =
     \<lparr>status = code, success = False, message = None, files = [], pagination = None,
      error = Some m\<rparr>"

definition get_download :: "server \<Rightarrow> string \<Rightarrow> download_response" where
  "get_download s ident =
     (case select_by_id (catalog s) ident of
        Inl e \<Rightarrow> Json (plain_failure 500 Erro_interno)
      | Inr [] \<Rightarrow> Json (plain_failure 404 Arquivo_nao_encontrado)
      | Inr (file # _) \<Rightarrow>
          if file_path file \<notin> disk s then Json (plain_failure 404 Arquivo_fisico_nao_encontrado)
          else Download (file_path file) (custom_name file @ ''.pdf''))"

subsection \<open>DELETE /api/files/:id\<close>

definition delete_failure :: "nat \<Rightarrow> msg \<Rightarrow> response" where
  "delete_failure code m =
     \<lparr>status = code, success = False, message = Some Empty_text, files = [],
      pagination = None, error = Some m\<rparr>"

definition delete_file :: "server \<Rightarrow> string \<Rightarrow> server \<times> response" where
  "delete_file s ident =
     (case select_by_id (catalog s) ident of
        Inl e \<Rightarrow> (s, delete_failure 500 Erro_ao_deletar)
      | Inr [] \<Rightarrow> (s, delete_failure 404 Arquivo_nao_encontrado)
      | Inr (file # _) \<Rightarrow>
          (case delete_by_id (catalog s) ident of
             Inl e \<Rightarrow> (s, delete_failure 500 Erro_ao_deletar)
           | Inr tbl \<Rightarrow>
               (\<lparr>catalog = tbl, disk = disk s - {file_path file}\<rparr>,
                \<lparr>status = 200, success = True, message = Some Arquivo_deletado, files = [],
                 pagination = None, error = None\<rparr>)))"


section \<open>Notions of the specification\<close>

text \<open>
  The notions in which the properties below are stated. A character is special in a LIKE
  pattern when it is \<open>%\<close>, \<open>_\<close> or the backslash. A row matches a search text when one
  of its two names does, under ILIKE, against the text between two \<open>%\<close>. A text contains
  another without regard to case when the lower-cased one contains the other lower-cased.
  Page \<open>p\<close> of size \<open>n\<close> of a list is what follows its first \<open>(p - 1) * n\<close> elements, up to
  \<open>n\<close> of them. The position of an element in a list is the number of elements before
  its first occurrence. \<open>insert_item ev names j f tbl\<close> is the insert that the loop of the
  upload makes for the file \<open>f\<close> at the index \<open>j\<close> into the table \<open>tbl\<close>. Trimming removes the white space at both ends of a text; stripping the
  extension removes a final \<open>.pdf\<close>.
\<close>

definition like_special :: "char \<Rightarrow> bool" where
  "like_special c = (c = CHR ''%'' \<or> c = CHR ''_'' \<or> c = CHR 0x5C)"

definition matches :: "string option \<Rightarrow> pdf_row \<Rightarrow> bool" where
  "matches search r =
     (case search of
        None \<Rightarrow> True
      | Some t \<Rightarrow> ilike (custom_name r) (''%'' @ t @ ''%'')
                  \<or> ilike (original_name r) (''%'' @ t @ ''%''))"

definition contains_ci :: "string \<Rightarrow> string \<Rightarrow> bool" where
  "contains_ci s t = is_substring (lower t) (lower s)"

definition page_of :: "int \<Rightarrow> int \<Rightarrow> 'a list \<Rightarrow> 'a list" where
  "page_of p n xs = take (nat n) (drop (nat ((p - 1) * n)) xs)"

definition position :: "'a list \<Rightarrow> 'a \<Rightarrow> nat" where
  "position xs x = length (takeWhile (\<lambda>y. y \<noteq> x) xs)"

definition trim :: "string \<Rightarrow> string" where
  "trim s = rev (dropWhile is_space (rev (dropWhile is_space s)))"

definition strip_pdf_extension :: "string \<Rightarrow> string" where
  "strip_pdf_extension name =
     (if suffix ''.pdf'' name then take (length name - 4) name else name)"


subsection \<open>A catalog of three files\<close>

definition row_q1 :: pdf_row where
  "row_q1 = \<lparr>row_id = ''a0eebc99-9c0b-4ef8-bb6d-6bb9bd380a11'', custom_name = ''Q1-Report'',
     original_name = ''report.pdf'', file_name = ''pdf-1-7-report.pdf'',
     file_path = ''uploads/pdf-1-7-report.pdf'', file_size = 1536,
     mime_type = ''application/pdf'', upload_date = 100, updated_at = 100\<rparr>"

definition row_notes :: pdf_row where
  "row_notes = \<lparr>row_id = ''b1ffcd00-1d2c-4ef8-bb6d-6bb9bd380a22'', custom_name = ''Notes'',
     original_name = ''notes.pdf'', file_name = ''pdf-3-8-notes.pdf'',
     file_path = ''uploads/pdf-3-8-notes.pdf'', file_size = 0,
     mime_type = ''application/pdf'', upload_date = 300, updated_at = 300\<rparr>"

definition row_annual :: pdf_row where
  "row_annual = \<lparr>row_id = ''c2aade11-2e3d-4ef8-bb6d-6bb9bd380a33'', custom_name = ''Annual'',
     original_name = ''Annual REPORT.pdf'', file_name = ''pdf-2-9-Annual_REPORT.pdf'',
     file_path = ''uploads/pdf-2-9-Annual_REPORT.pdf'', file_size = 10485760,
     mime_type = ''application/x-pdf'', upload_date = 200, updated_at = 200\<rparr>"

definition sample :: server where
  "sample = \<lparr>catalog = [row_q1, row_notes, row_annual],
              disk = {''uploads/pdf-1-7-report.pdf'', ''uploads/pdf-3-8-notes.pdf''}\<rparr>"

subsection \<open>An environment and two uploads\<close>

definition env0 :: env where
  "env0 = \<lparr>Date_now = (\<lambda>k. 1700000000000 + k), random_1E9 = (\<lambda>k. 123456789),
            uuidv4 = (\<lambda>i. if i = 0 then ''d3bbef22-3f4e-4ef8-bb6d-6bb9bd380a44''
                            else ''e4ccf033-4a5f-4ef8-bb6d-6bb9bd380a55''),
            CURRENT_TIMESTAMP = (\<lambda>i. 400 + int i), new_Date = (\<lambda>i. 400 + int i)\<rparr>"

definition file_alpha :: File where
  "file_alpha = \<lparr>originalname = ''a.pdf'', mimetype = ''application/pdf'', fsize = 1536,
                  filename = ''pdf-1700000000000-123456789-a.pdf'',
                  path = ''uploads/pdf-1700000000000-123456789-a.pdf''\<rparr>"

definition file_beta :: File where
  "file_beta = \<lparr>originalname = ''b.pdf'', mimetype = ''application/pdf'', fsize = 2048,
                 filename = ''pdf-1700000000001-123456789-b.pdf'',
                 path = ''uploads/pdf-1700000000001-123456789-b.pdf''\<rparr>"

definition part_text :: part where
  "part_text = \<lparr>originalname = ''notes.txt'', mimetype = ''text/plain'', fsize = 12\<rparr>"

definition part_pdf :: part where
  "part_pdf = \<lparr>originalname = ''a.pdf'', mimetype = ''application/pdf'', fsize = 1536\<rparr>"

definition part_huge :: part where
  "part_huge = \<lparr>originalname = ''huge.pdf'', mimetype = ''application/pdf'', fsize = 10485761\<rparr>"

definition file_twice :: File where
  "file_twice = \<lparr>originalname = ''a.pdf.b.pdf'', mimetype = ''application/pdf'', fsize = 10,
                  filename = ''pdf-1700000000000-123456789-a.pdf.b.pdf'',
                  path = ''uploads/pdf-1700000000000-123456789-a.pdf.b.pdf''\<rparr>"


section \<open>Evaluation\<close>

text \<open>
  The recursive equations of \<open>log1024\<close> and \<open>string_of_nat\<close> as conditional rewrite
  rules, and the definitions that evaluate texts and the sample catalog.
\<close>

lemma log1024_lt: "n < 1024 \<Longrightarrow> log1024 n = 0"
  by (subst log1024.simps) simp
lemma log1024_ge: "1024 \<le> n \<Longrightarrow> log1024 n = Suc (log1024 (n div 1024))"
  by (subst log1024.simps) simp
lemma string_of_nat_digit: "n < 10 \<Longrightarrow> string_of_nat n = [''0123456789'' ! n]"
  by (subst string_of_nat.simps) simp
lemma string_of_nat_step:
  "10 \<le> n \<Longrightarrow> string_of_nat n = string_of_nat (n div 10) @ [''0123456789'' ! (n mod 10)]"
  by (subst string_of_nat.simps) simp
lemmas formatFileSize_eval =
  formatFileSize_def log1024_lt log1024_ge toFixed2_def number_of_hundredths_def
  string_of_nat_digit string_of_nat_step sizes_at_def sizes_def Let_def
lemmas text_eval = matches_def ilike_def lower_def to_lower_def upper_letters_def lower_letters_def
  contains_ci_def
lemmas sample_eval = sample_def row_q1_def row_notes_def row_annual_def

section \<open>Size formatting\<close>

text \<open>
  \<open>log1024 n\<close> is the exponent of the largest power of 1024 that is at most \<open>n\<close>.
\<close>

lemma log1024_bounds: "0 < n \<Longrightarrow> 1024 ^ log1024 n \<le> n \<and> n < 1024 ^ Suc (log1024 n)"
proof (induction n rule: log1024.induct)
  case (1 n)
  show ?case
  proof (cases "n < 1024")
    case True
    with "1.prems" show ?thesis by (simp add: log1024_lt)
  next
    case False
    then have pos: "0 < n div 1024" by (simp add: div_greater_zero_iff)
    from "1.IH" [OF False pos]
    have lo: "1024 ^ log1024 (n div 1024) \<le> n div 1024"
      and hi: "n div 1024 < 1024 ^ Suc (log1024 (n div 1024))" by simp_all
    have step: "log1024 n = Suc (log1024 (n div 1024))" using False by (simp add: log1024_ge)
    have "1024 * 1024 ^ log1024 (n div 1024) \<le> 1024 * (n div 1024)" using lo by simp
    also have "\<dots> \<le> n" by simp
    finally have a: "1024 ^ log1024 n \<le> n" by (simp add: step)
    have "n < 1024 * (n div 1024 + 1)"
      using dividend_less_times_div [of 1024 n] by simp
    also have "\<dots> \<le> 1024 * 1024 ^ Suc (log1024 (n div 1024))"
      using hi by (simp del: power_Suc)
    finally have b: "n < 1024 ^ Suc (log1024 n)" by (simp add: step)
    from a b show ?thesis by simp
  qed
qed
lemma log1024_lt4: "0 < n \<Longrightarrow> n < 1024 ^ 4 \<Longrightarrow> log1024 n < 4"
proof (rule ccontr)
  assume n: "0 < n" "n < 1024 ^ 4" and "\<not> log1024 n < 4"
  then have "4 \<le> log1024 n" by simp
  then have "(1024::nat) ^ 4 \<le> 1024 ^ log1024 n" by (rule power_increasing) simp
  with log1024_bounds [OF n(1)] n(2) show False by simp
qed
text \<open>
  \<open>toFixed2 b d\<close> is the number of hundredths nearest to \<open>b / d\<close>, a tie going up.
\<close>

lemma toFixed2_nearest:
  assumes "0 < d"
  shows "2 * 100 * b < (2 * toFixed2 b d + 1) * d \<and> 2 * toFixed2 b d * d \<le> 2 * 100 * b + d"
proof -
  define q where "q = (2 * 100 * b + d) div (2 * d)"
  define r where "r = (2 * 100 * b + d) mod (2 * d)"
  have eq: "2 * 100 * b + d = (2 * d) * q + r" by (simp add: q_def r_def)
  have r: "r < 2 * d" using assms by (simp add: r_def)
  have t: "toFixed2 b d = q" by (simp add: toFixed2_def q_def)
  have m: "2 * d * q = 2 * q * d" "(2 * q + 1) * d = 2 * q * d + d" by (simp_all add: algebra_simps)
  show ?thesis unfolding t using eq r unfolding m by linarith
qed
text \<open>
  Below \<open>1024 ^ 4\<close> bytes the unit is the largest of Bytes, KB, MB and GB of which the
  byte count holds at least one, and the number is the count in that unit rounded to
  hundredths. The three examples of the specification hold.
\<close>

lemma formatFileSize_units:
  assumes "0 < b" "b < 1024 ^ 4"
  shows "formatFileSize b = number_of_hundredths (toFixed2 b (1024 ^ log1024 b)) @ '' '' @ sizes ! log1024 b
    \<and> log1024 b < length sizes \<and> 1024 ^ log1024 b \<le> b \<and> b < 1024 ^ Suc (log1024 b)"
  using assms log1024_lt4 [OF assms] log1024_bounds [OF assms(1)]
  by (simp add: formatFileSize_def sizes_at_def sizes_def Let_def)
lemma formatFileSize_examples:
  "formatFileSize 0 = ''0 Bytes'' \<and> formatFileSize 1536 = ''1.5 KB''
   \<and> formatFileSize (10 * 1024 * 1024) = ''10 MB''"
  by (simp add: formatFileSize_eval)
text \<open>
  C7. \<open>formatFileSize\<close> renders a byte count in one of the units Bytes, KB, MB and GB,
  the largest of which the count holds at least one. The server does not for a count of
  \<open>1024 ^ 4\<close> bytes or more: it reads the unit beyond the end of \<open>sizes\<close>. Two tebibytes,
  which \<open>GET /api/stats\<close> formats when the sizes of the stored files sum to it, are
  rendered with the unit \<open>undefined\<close>, where the claim has \<open>2048 GB\<close>.
\<close>

theorem formatFileSize_beyond_GB: "formatFileSize (2 * 1024 ^ 4) = ''2 undefined''"
  by (simp add: formatFileSize_eval)


section \<open>Matching\<close>

lemma is_substring_prefix: "prefix t s \<Longrightarrow> is_substring t s"
  by (cases s) simp_all
lemma is_substring_Nil: "is_substring [] s"
  by (simp add: is_substring_prefix)
lemma is_substring_iff: "is_substring t s \<longleftrightarrow> (\<exists>pre post. s = pre @ t @ post)"
proof (induction s)
  case Nil
  then show ?case by simp
next
  case (Cons c cs)
  show ?case
  proof
    assume "is_substring t (c # cs)"
    then consider "prefix t (c # cs)" | "is_substring t cs" by auto
    then show "\<exists>pre post. c # cs = pre @ t @ post"
    proof cases
      case 1
      then obtain post where "c # cs = t @ post" by (auto simp: prefix_def)
      then have "c # cs = [] @ t @ post" by simp
      then show ?thesis by blast
    next
      case 2
      with Cons obtain pre post where "cs = pre @ t @ post" by blast
      then have "c # cs = (c # pre) @ t @ post" by simp
      then show ?thesis by blast
    qed
  next
    assume "\<exists>pre post. c # cs = pre @ t @ post"
    then obtain pre post where eq: "c # cs = pre @ t @ post" by blast
    show "is_substring t (c # cs)"
    proof (cases pre)
      case Nil
      with eq have "prefix t (c # cs)" by (simp add: prefix_def)
      then show ?thesis by simp
    next
      case (Cons a pre')
      with eq have "cs = pre' @ t @ post" by simp
      with Cons.IH have "is_substring t cs" by blast
      then show ?thesis by simp
    qed
  qed
qed
lemma like_match_percent: "like_match ''%'' t"
  by (induction t) simp_all
lemma like_match_any: "like_match (CHR ''%'' # ps) t \<longleftrightarrow> (\<exists>k \<le> length t. like_match ps (drop k t))"
proof (induction t)
  case Nil
  then show ?case by simp
next
  case (Cons c cs)
  have "(\<exists>k \<le> length (c # cs). like_match ps (drop k (c # cs)))
          \<longleftrightarrow> like_match ps (c # cs) \<or> (\<exists>k \<le> length cs. like_match ps (drop k cs))"
  proof
    assume "\<exists>k \<le> length (c # cs). like_match ps (drop k (c # cs))"
    then obtain k where k: "k \<le> length (c # cs)" "like_match ps (drop k (c # cs))" by blast
    show "like_match ps (c # cs) \<or> (\<exists>k \<le> length cs. like_match ps (drop k cs))"
    proof (cases k)
      case 0
      with k show ?thesis by simp
    next
      case (Suc j)
      with k have "j \<le> length cs" "like_match ps (drop j cs)" by simp_all
      then show ?thesis by blast
    qed
  next
    assume "like_match ps (c # cs) \<or> (\<exists>k \<le> length cs. like_match ps (drop k cs))"
    then show "\<exists>k \<le> length (c # cs). like_match ps (drop k (c # cs))"
    proof
      assume "like_match ps (c # cs)"
      then have "0 \<le> length (c # cs) \<and> like_match ps (drop 0 (c # cs))" by simp
      then show ?thesis by blast
    next
      assume "\<exists>k \<le> length cs. like_match ps (drop k cs)"
      then obtain k where "k \<le> length cs" "like_match ps (drop k cs)" by blast
      then have "Suc k \<le> length (c # cs) \<and> like_match ps (drop (Suc k) (c # cs))" by simp
      then show ?thesis by blast
    qed
  qed
  with Cons show ?case by simp
qed
lemma like_match_literal:
  assumes "\<forall>c \<in> set lit. \<not> like_special c"
  shows "like_match (lit @ ps) t \<longleftrightarrow> (\<exists>rest. t = lit @ rest \<and> like_match ps rest)"
  using assms
proof (induction lit arbitrary: t)
  case Nil
  then show ?case by simp
next
  case (Cons a lit)
  then have a: "a \<noteq> CHR ''%''" "a \<noteq> CHR ''_''" "a \<noteq> CHR 0x5C"
    and lit: "\<forall>c \<in> set lit. \<not> like_special c"
    by (simp_all add: like_special_def)
  show ?case
  proof (cases t)
    case Nil
    with a show ?thesis by simp
  next
    case (Cons c cs)
    with a Cons.IH [OF lit, of cs] show ?thesis by auto
  qed
qed
text \<open>
  Between two \<open>%\<close>, a text without special characters matches exactly the texts that
  contain it.
\<close>

lemma like_match_contains:
  assumes "\<forall>c \<in> set t. \<not> like_special c"
  shows "like_match (''%'' @ t @ ''%'') s \<longleftrightarrow> is_substring t s"
proof -
  have "like_match (''%'' @ t @ ''%'') s \<longleftrightarrow> (\<exists>k \<le> length s. like_match (t @ ''%'') (drop k s))"
    using like_match_any [of "t @ ''%''" s] by simp
  also have "\<dots> \<longleftrightarrow> (\<exists>k \<le> length s. \<exists>rest. drop k s = t @ rest)"
    by (simp add: like_match_literal [OF assms] like_match_percent)
  also have "\<dots> \<longleftrightarrow> (\<exists>pre post. s = pre @ t @ post)"
  proof
    assume "\<exists>k \<le> length s. \<exists>rest. drop k s = t @ rest"
    then obtain k rest where "drop k s = t @ rest" by blast
    then have "s = take k s @ t @ rest" by (metis append_take_drop_id)
    then show "\<exists>pre post. s = pre @ t @ post" by blast
  next
    assume "\<exists>pre post. s = pre @ t @ post"
    then obtain pre post where "s = pre @ t @ post" by blast
    then have "length pre \<le> length s \<and> drop (length pre) s = t @ post" by simp
    then show "\<exists>k \<le> length s. \<exists>rest. drop k s = t @ rest" by blast
  qed
  finally show ?thesis by (simp add: is_substring_iff)
qed
lemma to_lower_special: "like_special (to_lower c) \<longleftrightarrow> like_special c"
  by (auto simp: to_lower_def like_special_def upper_letters_def lower_letters_def
           split: option.splits dest!: map_of_SomeD)
lemma to_lower_percent: "to_lower CHR ''%'' = CHR ''%''"
  by (simp add: to_lower_def upper_letters_def lower_letters_def)
lemma ilike_contains:
  assumes "\<forall>c \<in> set t. \<not> like_special c"
  shows "ilike s (''%'' @ t @ ''%'') \<longleftrightarrow> is_substring (lower t) (lower s)"
proof -
  have "\<forall>c \<in> set (lower t). \<not> like_special c"
    using assms by (auto simp: lower_def to_lower_special)
  from like_match_contains [OF this, of "lower s"] show ?thesis
    by (simp add: ilike_def lower_def to_lower_percent)
qed
lemma ilike_all: "ilike s ''%%''"
  using like_match_any [of "''%''" "lower s"]
  by (auto simp: ilike_def lower_def to_lower_percent like_match_percent)
lemma no_dangling_escape: "\<not> dangling_escape (''%'' @ t @ ''%'')"
proof -
  have "\<not> dangling_escape (u @ ''%'')" for u
    by (induction u rule: dangling_escape.induct) auto
  from this [of "''%'' @ t"] show ?thesis by simp
qed

section \<open>Listing\<close>

lemma bind_page: "bind [Suc 0, 2] [a, b] = None"
  by (simp add: bind_def upt_rec)

lemma bind_page_where: "bind [Suc 0, 2, 3, 3] [a, b, c] = None"
  by (simp add: bind_def upt_rec)

lemma bind_count: "bind [] [] = None"
  by (simp add: bind_def)

text \<open>
  The count statement of a search mentions \<open>$3\<close> alone and comes with one value: the
  database does not prepare it.
\<close>

lemma bind_count_where: "bind [3, 3] [c] = Some Indeterminate_datatype"
  by (simp add: bind_def upt_rec)

lemma where_holds_matches:
  "where_holds (Where_ilike 3) [a, b, Text (''%'' @ t @ ''%'')] = matches (Some t)"
  by (rule ext) (simp add: where_holds_def matches_def text_value_def)

lemma not_truthy: "\<not> truthy search \<longleftrightarrow> search = None \<or> search = Some []"
  by (cases search) (simp_all add: truthy_def)

lemma bigint_value_Number:
  "0 \<le> i \<Longrightarrow> i < 2 ^ 63 \<Longrightarrow> bigint_value (Number i) = Inr i"
  by (simp add: bigint_value_def)

text \<open>
  Whatever the rank of the rows, the order of a list is a descending order of its rows; and
  every descending order of distinct rows is the order for some rank.
\<close>

lemma mset_order_by: "mset (order_by_upload_date_desc tie rows) = mset rows"
  by (simp add: order_by_upload_date_desc_def)

lemma set_order_by: "set (order_by_upload_date_desc tie rows) = set rows"
  by (simp add: order_by_upload_date_desc_def)

lemma sorted_order_by:
  "sorted_wrt (\<lambda>a b. upload_date b \<le> upload_date a) (order_by_upload_date_desc tie rows)"
proof -
  have "sorted (map (\<lambda>r. - upload_date r) (order_by_upload_date_desc tie rows))"
    by (simp add: order_by_upload_date_desc_def)
  then show ?thesis by (simp add: sorted_map)
qed

text \<open>
  The order of the rows of one instant is the database's: every arrangement of distinct
  rows that is descending in the upload instants is the order for some rank of the ties.
\<close>

lemma position_nth:
  assumes "distinct xs" "i < length xs"
  shows "position xs (xs ! i) = i"
proof -
  have "takeWhile (\<lambda>y. y \<noteq> xs ! i) xs = take i xs"
  proof (rule takeWhile_eq_take_P_nth)
    fix j assume "j < i" "j < length xs"
    with assms show "xs ! j \<noteq> xs ! i" by (simp add: nth_eq_iff_index_eq)
  next
    show "\<not> xs ! i \<noteq> xs ! i" by simp
  qed
  with assms(2) show ?thesis by (simp add: position_def)
qed
lemma map_position:
  assumes "distinct xs"
  shows "map (position xs) xs = [0..<length xs]"
  by (rule nth_equalityI) (simp_all add: position_nth [OF assms])
lemma position_inj:
  assumes "distinct xs" "a \<in> set xs" "b \<in> set xs" "position xs a = position xs b"
  shows "a = b"
proof -
  from assms(2,3) obtain i j where "i < length xs" "xs ! i = a" "j < length xs" "xs ! j = b"
    by (auto simp: in_set_conv_nth)
  with assms(1,4) position_nth [OF assms(1)] show ?thesis by metis
qed
lemma filter_singleton:
  assumes "distinct xs" "k \<in> set xs" "\<And>x. x \<in> set xs \<Longrightarrow> P x \<longleftrightarrow> x = k"
  shows "filter P xs = [k]"
  using assms
proof (induction xs)
  case Nil
  then show ?case by simp
next
  case (Cons a xs)
  show ?case
  proof (cases "a = k")
    case True
    with Cons.prems have "k \<notin> set xs" "\<And>x. x \<in> set xs \<Longrightarrow> \<not> P x" by auto
    then have "filter P xs = []" by (simp add: filter_empty_conv)
    with True Cons.prems(3) [of a] show ?thesis by simp
  next
    case False
    with Cons.prems have "filter P xs = [k]" by (intro Cons.IH) auto
    with False Cons.prems(3) [of a] show ?thesis by simp
  qed
qed
lemma order_by_complete:
  assumes "distinct rows" "mset out = mset rows"
    and "sorted_wrt (\<lambda>a b. upload_date b \<le> upload_date a) out"
  shows "\<exists>tie. order_by_upload_date_desc tie rows = out"
proof -
  have d: "distinct out" using assms(1,2) by (metis mset_eq_imp_distinct_iff)
  have s: "set out = set rows" using assms(2) by (metis mset_eq_setD)
  have "sort_key (position out) rows = out"
  proof (rule properties_for_sort_key)
    show "mset out = mset rows" by (rule assms(2))
  next
    fix k assume k: "k \<in> set out"
    have "filter (\<lambda>x. position out k = position out x) out = [k]"
      using d k position_inj [OF d k] by (intro filter_singleton) auto
    moreover have "filter (\<lambda>x. position out k = position out x) rows = [k]"
      using assms(1) k s position_inj [OF d k] by (intro filter_singleton) auto
    ultimately show "filter (\<lambda>x. position out k = position out x) out
                       = filter (\<lambda>x. position out k = position out x) rows" by simp
  next
    show "sorted (map (position out) out)" by (simp add: map_position [OF d])
  qed
  moreover have "sort_key (\<lambda>r. - upload_date r) out = out"
  proof (rule sort_key_id_if_sorted)
    show "sorted (map (\<lambda>r. - upload_date r) out)" using assms(3) by (simp add: sorted_map)
  qed
  ultimately have "order_by_upload_date_desc (position out) rows = out"
    by (simp add: order_by_upload_date_desc_def)
  then show ?thesis by blast
qed
text \<open>
  The page statement of a search selects the page of the rows that match, and for a text
  without special characters these are the rows one of whose names contains it.
\<close>

lemma select_files_search:
  assumes "0 \<le> n" "n < 2 ^ 63" "0 \<le> off" "off < 2 ^ 63"
  shows "select_files tie tbl (Where_ilike 3) [Number n, Number off, Text (''%'' @ t @ ''%'')]
           = Inr (take (nat n) (drop (nat off)
                   (order_by_upload_date_desc tie (filter (matches (Some t)) tbl))))"
  using assms where_holds_matches [of "Number n" "Number off" t]
  by (simp add: select_files_def where_refs_def bind_page_where bigint_value_Number)

lemma matches_contains:
  assumes "\<forall>c \<in> set t. \<not> like_special c"
  shows "matches (Some t) r \<longleftrightarrow> contains_ci (custom_name r) t \<or> contains_ci (original_name r) t"
  using ilike_contains [OF assms] by (simp add: matches_def contains_ci_def)

text \<open>
  Without a search the listing succeeds on every page whose LIMIT and OFFSET are in the
  range of BIGINT; with one it fails, since its count statement does. The arithmetic of
  \<open>get_files\<close> is that of the code for numbers below \<open>2 ^ 53\<close>, and the properties of
  the server that follow from this lemma are stated within that bound.
\<close>

lemma get_files_unfiltered:
  assumes "\<not> truthy search" "1 \<le> p" "0 \<le> n" "n < 2 ^ 63" "(p - 1) * n < 2 ^ 63"
  shows "get_files tie s search p n =
     \<lparr>status = 200, success = True, message = None,
      files = map uploaded_file (page_of p n (order_by_upload_date_desc tie (catalog s))),
      pagination = Some \<lparr>page = p, limit = n, total = int (length (catalog s)),
                         totalPages = Math_ceil_div (int (length (catalog s))) n\<rparr>,
      error = None\<rparr>"
proof -
  have off: "0 \<le> (p - 1) * n" using assms(2,3) by simp
  have sel: "select_files tie (catalog s) No_where [Number n, Number ((p - 1) * n)]
               = Inr (page_of p n (order_by_upload_date_desc tie (catalog s)))"
    using assms(3,4,5) off
    by (simp add: select_files_def where_refs_def bind_page bigint_value_Number where_holds_def
                  page_of_def)
  have cnt: "select_count (catalog s) No_where [] = Inr (int (length (catalog s)))"
    by (simp add: select_count_def where_refs_def bind_count where_holds_def)
  show ?thesis using assms(1) by (simp add: get_files_def Let_def sel cnt)
qed

lemma get_files_filtered:
  assumes "truthy search"
  shows "get_files tie s search p n = files_failure"
proof -
  have "select_count (catalog s) (Where_ilike 3) [Text (pattern search)] = Inl Indeterminate_datatype"
    by (simp add: select_count_def where_refs_def bind_count_where)
  then show ?thesis using assms
    by (simp add: get_files_def Let_def split: sum.split)
qed

text \<open>
  From \<open>2 ^ 63\<close> on a LIMIT is refused, and the listing fails.
\<close>

lemma get_files_out_of_range:
  assumes "2 ^ 63 \<le> n"
  shows "get_files tie s search p n = files_failure"
proof -
  have "bigint_value (Number n) = Inl Invalid_text_representation
          \<or> bigint_value (Number n) = Inl Numeric_value_out_of_range"
    using assms by (simp add: bigint_value_def)
  then have "\<exists>e. select_files tie (catalog s) (if truthy search then Where_ilike 3 else No_where)
               ([Number n, Number ((p - 1) * n)]
                  @ (if truthy search then [Text (pattern search)] else [])) = Inl e"
    by (auto simp: select_files_def where_refs_def bind_page bind_page_where)
  then show ?thesis by (auto simp: get_files_def Let_def)
qed

lemma get_files_Some_Nil: "get_files tie s (Some []) p n = get_files tie s None p n"
  by (simp add: get_files_def truthy_def)

lemma get_files_rows:
  "\<exists>rows. files (get_files tie s search p n) = map uploaded_file rows
      \<and> set rows \<subseteq> set (catalog s)
      \<and> sorted_wrt (\<lambda>a b. upload_date b \<le> upload_date a) rows"
proof (cases "select_files tie (catalog s)
                (if truthy search then Where_ilike 3 else No_where)
                ([Number n, Number ((p - 1) * n)]
                   @ (if truthy search then [Text (pattern search)] else []))")
  case (Inl e)
  then have "files (get_files tie s search p n) = map uploaded_file []"
    by (simp add: get_files_def Let_def files_failure_def)
  then show ?thesis by (metis empty_set empty_subsetI sorted_wrt.simps(1))
next
  case (Inr rows)
  then obtain w vals k j where
    rows: "rows = take k (drop j (order_by_upload_date_desc tie (filter (where_holds w vals) (catalog s))))"
    by (auto simp: select_files_def split: option.splits if_splits sum.splits)
  have sub: "set rows \<subseteq> set (catalog s)"
    unfolding rows by (auto simp: set_order_by dest!: in_set_takeD in_set_dropD)
  have srt: "sorted_wrt (\<lambda>a b. upload_date b \<le> upload_date a) rows"
    unfolding rows by (intro sorted_wrt_take sorted_wrt_drop sorted_order_by)
  have "files (get_files tie s search p n) = map uploaded_file rows
          \<or> files (get_files tie s search p n) = map uploaded_file []"
    using Inr by (simp add: get_files_def Let_def files_failure_def split: sum.split)
  then show ?thesis
  proof
    assume "files (get_files tie s search p n) = map uploaded_file rows"
    with sub srt show ?thesis by blast
  next
    assume "files (get_files tie s search p n) = map uploaded_file []"
    then show ?thesis by (metis empty_set empty_subsetI sorted_wrt.simps(1))
  qed
qed


text \<open>
  Without a filter, a page \<open>p \<ge> 1\<close> of size \<open>n \<ge> 1\<close> has at most \<open>n\<close> records,
  its total is the number of records of the catalog, and its number of pages is the
  ceiling of total / n, as long as the numbers stay below \<open>2 ^ 53\<close>.
\<close>

lemma get_files_pagination_unfiltered:
  assumes "\<not> truthy search" "1 \<le> p" "1 \<le> n"
    and "n < 2 ^ 53" "(p - 1) * n < 2 ^ 53" "length (catalog s) < 2 ^ 53"
  shows "status (get_files tie s search p n) = 200
       \<and> length (files (get_files tie s search p n)) \<le> nat n
       \<and> pagination (get_files tie s search p n) =
           Some \<lparr>page = p, limit = n, total = int (length (catalog s)),
                 totalPages = Num \<lceil>real (length (catalog s)) / real_of_int n\<rceil>\<rparr>"
proof -
  have n: "0 \<le> n" "n \<noteq> 0" "n < 2 ^ 63" "(p - 1) * n < 2 ^ 63" using assms(3,4,5) by simp_all
  show ?thesis
    by (simp add: get_files_unfiltered [OF assms(1,2) n(1,3,4)] page_of_def Math_ceil_div_def n(2))
qed

text \<open>
  C1. For every catalog, search filter, page \<open>p \<ge> 1\<close> and page size \<open>s \<ge> 1\<close>, the
  listing returns at most \<open>s\<close> records, reports as total the number of records that match
  the filter (all of them without a filter) and as totalPages the ceiling of total / s.
  With a filter the count statement of the server fails, and the server answers with the
  status 500, no records, the total 0 and 0 pages, whatever matches: in the sample catalog
  two records match \<open>report\<close>.
\<close>

theorem get_files_search_total:
  "length (filter (matches (Some ''report'')) (catalog sample)) = 2
   \<and> status (get_files tie sample (Some ''report'') 1 10) = 500
   \<and> pagination (get_files tie sample (Some ''report'') 1 10)
       = Some \<lparr>page = 1, limit = 10, total = 0, totalPages = Num 0\<rparr>"
proof -
  have m: "filter (matches (Some ''report'')) (catalog sample) = [row_q1, row_annual]"
    by (simp add: text_eval sample_eval)
  have "truthy (Some ''report'')" by (simp add: truthy_def)
  from get_files_filtered [OF this] show ?thesis by (simp add: m files_failure_def)
qed

text \<open>
  C2. For a search text that is not empty the listing returns the records one of whose
  names contains the text, whatever the case of the letters: the record uploaded as
  \<open>report.pdf\<close> under the name \<open>Q1-Report\<close> is returned for \<open>q1\<close> and for \<open>REPORT\<close>.
  The page statement of the server selects these records (for a text without \<open>%\<close>,
  \<open>_\<close> and backslash), but the count statement that follows it fails, and the answer to
  both searches is the failure, with no record.
\<close>

theorem get_files_search_fails:
  "contains_ci (custom_name row_q1) ''q1'' \<and> contains_ci (original_name row_q1) ''REPORT''
   \<and> select_files tie [row_q1] (Where_ilike 3) [Number 10, Number 0, Text ''%q1%''] = Inr [row_q1]
   \<and> select_count [row_q1] (Where_ilike 3) [Text ''%q1%''] = Inl Indeterminate_datatype
   \<and> get_files tie \<lparr>catalog = [row_q1], disk = {}\<rparr> (Some ''q1'') 1 10 = files_failure
   \<and> get_files tie \<lparr>catalog = [row_q1], disk = {}\<rparr> (Some ''REPORT'') 1 10 = files_failure
   \<and> status files_failure = 500 \<and> files files_failure = []"
proof -
  have c: "contains_ci (custom_name row_q1) ''q1''" "contains_ci (original_name row_q1) ''REPORT''"
    by (simp_all add: text_eval row_q1_def)
  have m: "matches (Some ''q1'') row_q1" by (simp add: text_eval row_q1_def)
  have "select_files tie [row_q1] (Where_ilike 3) [Number 10, Number 0, Text (''%'' @ ''q1'' @ ''%'')]
          = Inr (take (nat 10) (drop (nat 0) (order_by_upload_date_desc tie
                  (filter (matches (Some ''q1'')) [row_q1]))))"
    by (rule select_files_search) simp_all
  then have s: "select_files tie [row_q1] (Where_ilike 3) [Number 10, Number 0, Text ''%q1%'']
          = Inr [row_q1]"
    by (simp add: m order_by_upload_date_desc_def)
  have k: "select_count [row_q1] (Where_ilike 3) [Text ''%q1%''] = Inl Indeterminate_datatype"
    by (simp add: select_count_def where_refs_def bind_count_where)
  have t: "truthy (Some ''q1'')" "truthy (Some ''REPORT'')" by (simp_all add: truthy_def)
  show ?thesis
    using c s k by (simp add: get_files_filtered [OF t(1)] get_files_filtered [OF t(2)]
                              files_failure_def)
qed

text \<open>
  The matching of the page statement, for the record: a text without special characters
  selects the records one of whose names contains it without regard to case; \<open>_\<close>
  selects records that do not contain it.
\<close>

lemma select_files_contains:
  assumes "\<forall>c \<in> set t. \<not> like_special c" "0 \<le> n" "n < 2 ^ 63" "0 \<le> off" "off < 2 ^ 63"
  shows "select_files tie tbl (Where_ilike 3) [Number n, Number off, Text (''%'' @ t @ ''%'')]
           = Inr (take (nat n) (drop (nat off) (order_by_upload_date_desc tie
                   (filter (\<lambda>r. contains_ci (custom_name r) t \<or> contains_ci (original_name r) t)
                      tbl))))"
proof -
  have "matches (Some t) = (\<lambda>r. contains_ci (custom_name r) t \<or> contains_ci (original_name r) t)"
    using matches_contains [OF assms(1)] by (intro ext)
  with select_files_search [OF assms(2,3,4,5), of tie tbl t] show ?thesis by simp
qed

lemma underscore_matches:
  "matches (Some ''_'') row_notes \<and> \<not> contains_ci (custom_name row_notes) ''_''
   \<and> \<not> contains_ci (original_name row_notes) ''_''"
  by (simp add: text_eval row_notes_def)

text \<open>
  C8. For every catalog and every valid page request, the records that the listing returns
  are in the order of their upload instants, the latest first, whatever order the database
  gives to records of the same instant. Without a search, and with numbers below
  \<open>2 ^ 53\<close>, they are the requested page of the catalog in such an order.
\<close>

theorem get_files_sorted:
  assumes "1 \<le> p" "1 \<le> n"
  shows "sorted_wrt (\<lambda>a b. uploadDate b \<le> uploadDate a) (files (get_files tie s search p n))
       \<and> (\<not> truthy search \<and> n < 2 ^ 53 \<and> (p - 1) * n < 2 ^ 53 \<longrightarrow>
            files (get_files tie s search p n)
              = map uploaded_file (page_of p n (order_by_upload_date_desc tie (catalog s))))
       \<and> mset (order_by_upload_date_desc tie (catalog s)) = mset (catalog s)
       \<and> sorted_wrt (\<lambda>a b. upload_date b \<le> upload_date a)
            (order_by_upload_date_desc tie (catalog s))"
proof -
  have n: "0 \<le> n" using assms(2) by simp
  from get_files_rows [of tie s search p n] obtain rows where
    r: "files (get_files tie s search p n) = map uploaded_file rows"
       "sorted_wrt (\<lambda>a b. upload_date b \<le> upload_date a) rows" by blast
  have "sorted_wrt (\<lambda>a b. uploadDate (uploaded_file b) \<le> uploadDate (uploaded_file a)) rows"
    using r(2) by (simp add: uploaded_file_def)
  then have a: "sorted_wrt (\<lambda>a b. uploadDate b \<le> uploadDate a)
                  (files (get_files tie s search p n))"
    by (simp add: r(1) sorted_wrt_map)
  have b: "\<not> truthy search \<and> n < 2 ^ 53 \<and> (p - 1) * n < 2 ^ 53 \<longrightarrow>
            files (get_files tie s search p n)
              = map uploaded_file (page_of p n (order_by_upload_date_desc tie (catalog s)))"
  proof (intro impI, elim conjE)
    assume t: "\<not> truthy search" and b: "n < 2 ^ 53" "(p - 1) * n < 2 ^ 53"
    then have "n < 2 ^ 63" "(p - 1) * n < 2 ^ 63" by simp_all
    from get_files_unfiltered [OF t assms(1) n this] show
      "files (get_files tie s search p n)
         = map uploaded_file (page_of p n (order_by_upload_date_desc tie (catalog s)))"
      by simp
  qed
  from a b mset_order_by sorted_order_by show ?thesis by blast
qed

theorem get_files_sorted_witness:
  "(1::int) \<le> 1 \<and> (1::int) \<le> 2 \<and> \<not> truthy None \<and> (2::int) < 2 ^ 53
   \<and> ((1::int) - 1) * 2 < 2 ^ 53
   \<and> sorted_wrt (\<lambda>a b. uploadDate b \<le> uploadDate a)
        (files (get_files (\<lambda>r. 0) sample None 1 2))
   \<and> map uploadDate (files (get_files (\<lambda>r. 0) sample None 1 2)) = [300, 200]"
proof -
  have g: "(1::int) \<le> 1" "(1::int) \<le> 2" by simp_all
  have t: "\<not> truthy None" "(2::int) < 2 ^ 53" "((1::int) - 1) * 2 < 2 ^ 53"
    by (simp_all add: truthy_def)
  have o: "page_of 1 2 (order_by_upload_date_desc (\<lambda>r. 0) (catalog sample))
             = [row_notes, row_annual]"
    by (simp add: page_of_def order_by_upload_date_desc_def sample_eval)
  from get_files_sorted [OF g, of "\<lambda>r. 0" sample None] t have
    s: "sorted_wrt (\<lambda>a b. uploadDate b \<le> uploadDate a)
          (files (get_files (\<lambda>r. 0) sample None 1 2))"
    and f: "files (get_files (\<lambda>r. 0) sample None 1 2) = map uploaded_file [row_notes, row_annual]"
    unfolding o by blast+
  have d: "map uploadDate (files (get_files (\<lambda>r. 0) sample None 1 2)) = [300, 200]"
    by (simp add: f uploaded_file_def row_notes_def row_annual_def)
  from g t s d show ?thesis by blast
qed

text \<open>
  C10. A search parameter that is the empty text is an absent filter: the listing is that
  without a filter. For a page \<open>p \<ge> 1\<close> of size \<open>n \<ge> 1\<close>, with numbers below
  \<open>2 ^ 53\<close>, it is the page of the whole catalog, and its total is the number of records
  of the catalog.
\<close>

theorem get_files_empty_search:
  "get_files tie s (Some []) p n = get_files tie s None p n
   \<and> (1 \<le> p \<and> 1 \<le> n \<and> n < 2 ^ 53 \<and> (p - 1) * n < 2 ^ 53 \<and> length (catalog s) < 2 ^ 53 \<longrightarrow>
        status (get_files tie s (Some []) p n) = 200
      \<and> files (get_files tie s (Some []) p n)
           = map uploaded_file (page_of p n (order_by_upload_date_desc tie (catalog s)))
      \<and> map_option total (pagination (get_files tie s (Some []) p n))
           = Some (int (length (catalog s))))"
proof -
  have t: "\<not> truthy None" by (simp add: truthy_def)
  have "1 \<le> p \<and> 1 \<le> n \<and> n < 2 ^ 53 \<and> (p - 1) * n < 2 ^ 53 \<and> length (catalog s) < 2 ^ 53 \<longrightarrow>
        status (get_files tie s None p n) = 200
      \<and> files (get_files tie s None p n)
           = map uploaded_file (page_of p n (order_by_upload_date_desc tie (catalog s)))
      \<and> map_option total (pagination (get_files tie s None p n))
           = Some (int (length (catalog s)))"
  proof (intro impI, elim conjE)
    assume p: "1 \<le> p" and n: "1 \<le> n" and b: "n < 2 ^ 53" "(p - 1) * n < 2 ^ 53"
    then have "0 \<le> n" "n < 2 ^ 63" "(p - 1) * n < 2 ^ 63" by simp_all
    from get_files_unfiltered [OF t p this] show
      "status (get_files tie s None p n) = 200
      \<and> files (get_files tie s None p n)
           = map uploaded_file (page_of p n (order_by_upload_date_desc tie (catalog s)))
      \<and> map_option total (pagination (get_files tie s None p n))
           = Some (int (length (catalog s)))"
      by simp
  qed
  then show ?thesis unfolding get_files_Some_Nil by simp
qed

theorem get_files_empty_search_witness:
  "(1::int) \<le> 1 \<and> (1::int) \<le> 10 \<and> (10::int) < 2 ^ 53 \<and> ((1::int) - 1) * 10 < 2 ^ 53
   \<and> length (catalog sample) < 2 ^ 53
   \<and> get_files (\<lambda>r. 0) sample (Some []) 1 10 = get_files (\<lambda>r. 0) sample None 1 10
   \<and> files (get_files (\<lambda>r. 0) sample (Some []) 1 10)
       = map uploaded_file [row_notes, row_annual, row_q1]
   \<and> map_option total (pagination (get_files (\<lambda>r. 0) sample (Some []) 1 10)) = Some 3"
proof -
  have o: "page_of 1 10 (order_by_upload_date_desc (\<lambda>r. 0) (catalog sample))
             = [row_notes, row_annual, row_q1]"
    by (simp add: page_of_def order_by_upload_date_desc_def sample_eval)
  have l: "int (length (catalog sample)) = 3" by (simp add: sample_def)
  have g: "(1::int) \<le> 1 \<and> (1::int) \<le> 10 \<and> (10::int) < 2 ^ 53 \<and> ((1::int) - 1) * 10 < 2 ^ 53
             \<and> length (catalog sample) < 2 ^ 53"
    by (simp add: sample_def)
  note w = get_files_empty_search [of "\<lambda>r. 0" sample 1 10]
  from w have e: "get_files (\<lambda>r. 0) sample (Some []) 1 10 = get_files (\<lambda>r. 0) sample None 1 10"
    by (rule conjunct1)
  from w [THEN conjunct2, rule_format, OF g] have
    "files (get_files (\<lambda>r. 0) sample (Some []) 1 10)
       = map uploaded_file [row_notes, row_annual, row_q1]
     \<and> map_option total (pagination (get_files (\<lambda>r. 0) sample (Some []) 1 10)) = Some 3"
    unfolding o l by (rule conjunct2)
  with g e show ?thesis by blast
qed



section \<open>Deleting\<close>

lemma uuid_in_abc: "uuid_in ''abc'' = None" by code_simp
lemma uuid_in_annual:
  "uuid_in ''{C2AADE11-2E3D-4EF8-BB6D-6BB9BD380A33}'' = Some ''c2aade11-2e3d-4ef8-bb6d-6bb9bd380a33''"
  by code_simp
text \<open>
  An identifier that the database reads as a UUID no row has: the answer is 404 and the
  state stays as it was. In no case does the deletion of an identifier without a row
  change the state.
\<close>

lemma delete_file_not_found:
  assumes "uuid_in x = Some u" "u \<notin> set (map row_id (catalog s))"
  shows "delete_file s x = (s, delete_failure 404 Arquivo_nao_encontrado)"
proof -
  have "filter (\<lambda>r. row_id r = u) (catalog s) = []" using assms(2) by (auto simp: filter_empty_conv)
  then show ?thesis using assms(1) by (simp add: delete_file_def select_by_id_def)
qed
lemma delete_file_unchanged:
  assumes "\<forall>u. uuid_in x = Some u \<longrightarrow> u \<notin> set (map row_id (catalog s))"
  shows "fst (delete_file s x) = s"
proof (cases "uuid_in x")
  case None then show ?thesis by (simp add: delete_file_def select_by_id_def)
next
  case (Some u)
  with assms have "u \<notin> set (map row_id (catalog s))" by simp
  from delete_file_not_found [OF Some this] show ?thesis by simp
qed
text \<open>
  C6. For every catalog and every identifier without a record in it, the deletion answers
  404 (not found) and leaves the catalog as it was. The server answers 500 where the
  identifier is not the text of a UUID, as \<open>abc\<close>: the SELECT by \<open>id\<close> fails on it
  before any row is looked at. The catalog stays as it was.
\<close>

theorem delete_malformed_id:
  "uuid_in ''abc'' = None
   \<and> delete_file s ''abc'' = (s, delete_failure 500 Erro_ao_deletar)
   \<and> status (snd (delete_file s ''abc'')) = 500"
  by (simp add: delete_file_def select_by_id_def uuid_in_abc delete_failure_def)

text \<open>
  C5. For every catalog that holds a record with the identifier \<open>x\<close>, the deletion of
  \<open>x\<close> removes the row, so that no later listing and no later lookup finds \<open>x\<close>, then
  removes the blob if there is one, and reports success also when the blob was absent
  already.
\<close>

theorem delete_file_removes:
  assumes "uuid_in x = Some u" "u \<in> set (map row_id (catalog s))"
  shows "status (snd (delete_file s x)) = 200 \<and> success (snd (delete_file s x))
       \<and> catalog (fst (delete_file s x)) = filter (\<lambda>r. row_id r \<noteq> u) (catalog s)
       \<and> u \<notin> set (map row_id (catalog (fst (delete_file s x))))
       \<and> (\<forall>tie search p n.
            u \<notin> set (map file_id (files (get_files tie (fst (delete_file s x)) search p n))))
       \<and> get_download (fst (delete_file s x)) x = Json (plain_failure 404 Arquivo_nao_encontrado)
       \<and> (\<exists>row \<in> set (catalog s). row_id row = u
             \<and> disk (fst (delete_file s x)) = disk s - {file_path row})"
proof -
  from assms(2) obtain row rest where sel: "filter (\<lambda>r. row_id r = u) (catalog s) = row # rest"
    by (cases "filter (\<lambda>r. row_id r = u) (catalog s)") (auto simp: filter_empty_conv)
  then have "row \<in> set (filter (\<lambda>r. row_id r = u) (catalog s))" by simp
  then have row: "row \<in> set (catalog s)" "row_id row = u" by simp_all
  define s' where "s' = \<lparr>catalog = filter (\<lambda>r. row_id r \<noteq> u) (catalog s), disk = disk s - {file_path row}\<rparr>"
  have del: "delete_file s x = (s', \<lparr>status = 200, success = True, message = Some Arquivo_deletado,
                 files = [], pagination = None, error = None\<rparr>)"
    using assms(1) sel by (simp add: delete_file_def select_by_id_def delete_by_id_def s'_def)
  have gone: "u \<notin> set (map row_id (catalog s'))" by (auto simp: s'_def)
  have listing: "u \<notin> set (map file_id (files (get_files tie s' search p n)))" for tie search p n
  proof
    assume "u \<in> set (map file_id (files (get_files tie s' search p n)))"
    then obtain f where "f \<in> set (files (get_files tie s' search p n))" "file_id f = u" by auto
    moreover from get_files_rows [of tie s' search p n] obtain rows where
      "files (get_files tie s' search p n) = map uploaded_file rows" "set rows \<subseteq> set (catalog s')"
      by blast
    ultimately obtain r where "r \<in> set (catalog s')" "row_id r = u"
      by (auto simp: uploaded_file_def)
    with gone show False by auto
  qed
  have "filter (\<lambda>r. row_id r = u) (catalog s') = []" by (auto simp: s'_def filter_empty_conv)
  then have dl: "get_download s' x = Json (plain_failure 404 Arquivo_nao_encontrado)"
    using assms(1) by (simp add: get_download_def select_by_id_def)
  show ?thesis using row gone listing dl by (auto simp: del s'_def)
qed
theorem delete_file_removes_witness:
  "uuid_in ''{C2AADE11-2E3D-4EF8-BB6D-6BB9BD380A33}'' = Some (row_id row_annual)
   \<and> row_id row_annual \<in> set (map row_id (catalog sample))
   \<and> file_path row_annual \<notin> disk sample
   \<and> status (snd (delete_file sample ''{C2AADE11-2E3D-4EF8-BB6D-6BB9BD380A33}'')) = 200
   \<and> success (snd (delete_file sample ''{C2AADE11-2E3D-4EF8-BB6D-6BB9BD380A33}''))
   \<and> catalog (fst (delete_file sample ''{C2AADE11-2E3D-4EF8-BB6D-6BB9BD380A33}'')) = [row_q1, row_notes]
   \<and> row_id row_annual
        \<notin> set (map file_id (files (get_files (\<lambda>r. 0)
              (fst (delete_file sample ''{C2AADE11-2E3D-4EF8-BB6D-6BB9BD380A33}'')) None 1 10)))
   \<and> get_download (fst (delete_file sample ''{C2AADE11-2E3D-4EF8-BB6D-6BB9BD380A33}''))
        ''{C2AADE11-2E3D-4EF8-BB6D-6BB9BD380A33}'' = Json (plain_failure 404 Arquivo_nao_encontrado)"
proof -
  have h1: "uuid_in ''{C2AADE11-2E3D-4EF8-BB6D-6BB9BD380A33}'' = Some (row_id row_annual)"
    by (simp add: uuid_in_annual row_annual_def)
  have h2: "row_id row_annual \<in> set (map row_id (catalog sample))" by (simp add: sample_def)
  have b: "file_path row_annual \<notin> disk sample" by (simp add: sample_eval)
  have f: "filter (\<lambda>r. row_id r \<noteq> row_id row_annual) (catalog sample) = [row_q1, row_notes]"
    by (simp add: sample_eval)
  from delete_file_removes [OF h1 h2] h1 h2 b show ?thesis by (simp add: f)
qed

section \<open>Uploading\<close>

lemmas upload_eval = upload_handler_def customNamesArray_of_def insert_pdf_file_def new_row_def
  fits_def varchar_def customName_of_def env0_def file_alpha_def file_beta_def file_twice_def
  sample_def row_q1_def row_notes_def row_annual_def download_url_def Let_def
lemma uuid_in_env0: "uuid_in ''d3bbef22-3f4e-4ef8-bb6d-6bb9bd380a44'' = Some ''d3bbef22-3f4e-4ef8-bb6d-6bb9bd380a44''"
   "uuid_in ''e4ccf033-4a5f-4ef8-bb6d-6bb9bd380a55'' = Some ''e4ccf033-4a5f-4ef8-bb6d-6bb9bd380a55''"
  by code_simp+
lemma insert_pdf_file_Inr:
  assumes "insert_pdf_file tbl now a b c d e f g = Inr t"
  shows "\<exists>row. t = tbl @ [row] \<and> uuid_in a = Some (row_id row)
           \<and> custom_name row = take 255 b \<and> original_name row = take 255 c"
  using assms
  by (auto simp: insert_pdf_file_def new_row_def varchar_def split: option.splits if_splits)
text \<open>
  The loop appends one row and one result for each file, in the order of the files, as
  long as the inserts succeed, and stops at the first insert that fails.
\<close>

lemma upload_loop_Inr:
  assumes "upload_loop ev names i fs tbl res = (tbl', Inr out)"
  shows "\<exists>new rs. tbl' = tbl @ new \<and> out = res @ rs
           \<and> length new = length fs \<and> length rs = length fs
           \<and> (\<forall>j < length fs.
                  customName (rs ! j) = customName_of names (i + j) (fs ! j)
                \<and> originalName (rs ! j) = originalname (fs ! j)
                \<and> file_id (rs ! j) = uuidv4 ev (i + j)
                \<and> custom_name (new ! j) = take 255 (customName_of names (i + j) (fs ! j))
                \<and> original_name (new ! j) = take 255 (originalname (fs ! j)))"
  using assms
proof (induction fs arbitrary: i tbl res)
  case Nil
  then show ?case by simp
next
  case (Cons f rest)
  let ?ins = "insert_pdf_file tbl (CURRENT_TIMESTAMP ev i) (uuidv4 ev i) (customName_of names i f)
                (originalname f) (filename f) (path f) (fsize f) (mimetype f)"
  let ?entry = "\<lparr>file_id = uuidv4 ev i, customName = customName_of names i f,
                  originalName = originalname f, fileName = filename f,
                  fileSize = formatFileSize (fsize f), uploadDate = new_Date ev i,
                  downloadUrl = download_url (uuidv4 ev i)\<rparr>"
  from Cons.prems obtain tbl1 where ins: "?ins = Inr tbl1"
    and rec: "upload_loop ev names (Suc i) rest tbl1 (res @ [?entry]) = (tbl', Inr out)"
    by (cases ?ins) (simp_all add: Let_def)
  from insert_pdf_file_Inr [OF ins] obtain row where row: "tbl1 = tbl @ [row]"
    "custom_name row = take 255 (customName_of names i f)"
    "original_name row = take 255 (originalname f)" by blast
  from Cons.IH [OF rec] obtain new rs where ih: "tbl' = tbl1 @ new" "out = (res @ [?entry]) @ rs"
    "length new = length rest" "length rs = length rest"
    "\<forall>j < length rest.
        customName (rs ! j) = customName_of names (Suc i + j) (rest ! j)
      \<and> originalName (rs ! j) = originalname (rest ! j)
      \<and> file_id (rs ! j) = uuidv4 ev (Suc i + j)
      \<and> custom_name (new ! j) = take 255 (customName_of names (Suc i + j) (rest ! j))
      \<and> original_name (new ! j) = take 255 (originalname (rest ! j))" by blast
  have all: "\<forall>j < length (f # rest).
        customName ((?entry # rs) ! j) = customName_of names (i + j) ((f # rest) ! j)
      \<and> originalName ((?entry # rs) ! j) = originalname ((f # rest) ! j)
      \<and> file_id ((?entry # rs) ! j) = uuidv4 ev (i + j)
      \<and> custom_name ((row # new) ! j) = take 255 (customName_of names (i + j) ((f # rest) ! j))
      \<and> original_name ((row # new) ! j) = take 255 (originalname ((f # rest) ! j))"
  proof (intro allI impI)
    fix j assume "j < length (f # rest)"
    then show "customName ((?entry # rs) ! j) = customName_of names (i + j) ((f # rest) ! j)
      \<and> originalName ((?entry # rs) ! j) = originalname ((f # rest) ! j)
      \<and> file_id ((?entry # rs) ! j) = uuidv4 ev (i + j)
      \<and> custom_name ((row # new) ! j) = take 255 (customName_of names (i + j) ((f # rest) ! j))
      \<and> original_name ((row # new) ! j) = take 255 (originalname ((f # rest) ! j))"
      using row(2,3) ih(5) by (cases j) simp_all
  qed
  have "tbl' = tbl @ (row # new)" "out = res @ (?entry # rs)"
    "length (row # new) = length (f # rest)" "length (?entry # rs) = length (f # rest)"
    using row(1) ih(1-4) by simp_all
  with all show ?case by blast
qed
lemma customNamesArray_of_Some:
  "customNamesArray_of field = Some names \<Longrightarrow> field \<noteq> Malformed \<and> field \<noteq> Parsed_null"
  by (cases field) (simp_all add: customNamesArray_of_def)
text \<open>
  A part that the filter refuses, or that is too large, makes \<open>upload_array\<close> end in an
  error, whatever comes before it; without an error every part is stored.
\<close>

lemma upload_array_rejects:
  assumes "p \<in> set ps" "mimetype p \<notin> set allowedMimes \<or> MAX_FILE_SIZE cfg < fsize p"
  shows "fst (upload_array cfg ev left k ps w) \<noteq> None"
  using assms
proof (induction ps arbitrary: left k w)
  case Nil
  then show ?case by simp
next
  case (Cons q qs)
  show ?case
  proof (cases "p = q")
    case True
    with Cons.prems(2) show ?thesis by (auto simp: fileFilter_def)
  next
    case False
    with Cons.prems have "p \<in> set qs" by simp
    from Cons.IH [OF this Cons.prems(2)] show ?thesis
      by (auto simp: fileFilter_def)
  qed
qed
lemma handleUploadError_400: "status (handleUploadError e) = 400 \<and> \<not> success (handleUploadError e)"
  by (simp add: handleUploadError_def upload_failure_def)
lemma post_upload_rejected:
  assumes "fst (upload_array cfg ev 10 0 (pdfFiles req) []) \<noteq> None"
  shows "status (snd (post_upload cfg ev s req)) = 400
       \<and> \<not> success (snd (post_upload cfg ev s req))
       \<and> catalog (fst (post_upload cfg ev s req)) = catalog s
       \<and> disk (fst (post_upload cfg ev s req)) \<subseteq> disk s"
proof -
  from assms obtain e w where "upload_array cfg ev 10 0 (pdfFiles req) [] = (Some e, w)"
    by (cases "upload_array cfg ev 10 0 (pdfFiles req) []") auto
  then show ?thesis
    by (auto simp: post_upload_def multer_def handleUploadError_400)
qed
lemma post_upload_accepted:
  assumes "upload_array cfg ev 10 0 (pdfFiles req) [] = (None, fs)"
  shows "post_upload cfg ev s req
           = upload_handler ev (s\<lparr>disk := disk s \<union> set (map path fs)\<rparr>) fs (customNames req)"
  using assms by (simp add: post_upload_def multer_def)
text \<open>
  An upload of one PDF under the name \<open>Alpha\<close>: the blob is written, the row is
  appended to the catalog, and the result carries the formatted size.
\<close>

lemma stored_eval: "stored default_config env0 0 part_pdf = file_alpha"
  by (simp add: stored_def storage_filename_def default_config_def env0_def part_pdf_def file_alpha_def
      string_of_nat_digit string_of_nat_step part.defs File.defs is_space_def Let_def)
lemma upload_array_pdf: "upload_array default_config env0 10 0 [part_pdf] [] = (None, [file_alpha])"
proof -
  have "mimetype part_pdf \<in> set allowedMimes" "\<not> MAX_FILE_SIZE default_config < fsize part_pdf"
    by (simp_all add: part_pdf_def allowedMimes_def default_config_def)
  then show ?thesis by (simp add: stored_eval fileFilter_def)
qed
lemma upload_scenario:
  "status (snd (post_upload default_config env0 sample
                  \<lparr>pdfFiles = [part_pdf], customNames = Parsed [''Alpha'']\<rparr>)) = 200
   \<and> disk (fst (post_upload default_config env0 sample
                  \<lparr>pdfFiles = [part_pdf], customNames = Parsed [''Alpha'']\<rparr>))
       = disk sample \<union> {''uploads/pdf-1700000000000-123456789-a.pdf''}
   \<and> map custom_name (catalog (fst (post_upload default_config env0 sample
                  \<lparr>pdfFiles = [part_pdf], customNames = Parsed [''Alpha'']\<rparr>)))
       = [''Q1-Report'', ''Notes'', ''Annual'', ''Alpha'']
   \<and> map fileSize (files (snd (post_upload default_config env0 sample
                  \<lparr>pdfFiles = [part_pdf], customNames = Parsed [''Alpha'']\<rparr>))) = [''1.5 KB'']"
proof -
  have p: "post_upload default_config env0 sample \<lparr>pdfFiles = [part_pdf], customNames = Parsed [''Alpha'']\<rparr>
         = upload_handler env0 (sample\<lparr>disk := disk sample \<union> set (map path [file_alpha])\<rparr>)
             [file_alpha] (Parsed [''Alpha''])"
  proof -
    have "upload_array default_config env0 10 0
            (pdfFiles \<lparr>pdfFiles = [part_pdf], customNames = Parsed [''Alpha'']\<rparr>) []
            = (None, [file_alpha])"
      by (simp only: upload_request.simps upload_array_pdf)
    from post_upload_accepted [OF this] show ?thesis by (simp only: upload_request.simps)
  qed
  show ?thesis unfolding p
    by (simp add: upload_eval uuid_in_env0 formatFileSize_eval)
qed
text \<open>
  C4. For every upload with an item whose MIME type is not \<open>application/pdf\<close> or
  \<open>application/x-pdf\<close>, or whose size exceeds the configured maximum (by default 10 MiB),
  the upload is rejected with the status 400, and no catalog record and no blob is created.
\<close>

theorem upload_rejects_invalid:
  assumes "p \<in> set (pdfFiles req)"
    and "mimetype p \<notin> set allowedMimes \<or> MAX_FILE_SIZE cfg < fsize p"
  shows "status (snd (post_upload cfg ev s req)) = 400
       \<and> \<not> success (snd (post_upload cfg ev s req))
       \<and> catalog (fst (post_upload cfg ev s req)) = catalog s
       \<and> disk (fst (post_upload cfg ev s req)) \<subseteq> disk s
       \<and> set allowedMimes = {''application/pdf'', ''application/x-pdf''}
       \<and> MAX_FILE_SIZE default_config = 10 * 1024 * 1024"
  using post_upload_rejected [OF upload_array_rejects [OF assms]]
  by (simp add: allowedMimes_def default_config_def)
theorem upload_rejects_invalid_witness:
  "part_text \<in> set (pdfFiles \<lparr>pdfFiles = [part_pdf, part_text], customNames = Absent\<rparr>)
   \<and> mimetype part_text \<notin> set allowedMimes
   \<and> status (snd (post_upload default_config env0 sample
               \<lparr>pdfFiles = [part_pdf, part_text], customNames = Absent\<rparr>)) = 400
   \<and> catalog (fst (post_upload default_config env0 sample
               \<lparr>pdfFiles = [part_pdf, part_text], customNames = Absent\<rparr>)) = catalog sample
   \<and> disk (fst (post_upload default_config env0 sample
               \<lparr>pdfFiles = [part_pdf, part_text], customNames = Absent\<rparr>)) \<subseteq> disk sample
   \<and> part_huge \<in> set (pdfFiles \<lparr>pdfFiles = [part_huge], customNames = Absent\<rparr>)
   \<and> MAX_FILE_SIZE default_config < fsize part_huge
   \<and> status (snd (post_upload default_config env0 sample
               \<lparr>pdfFiles = [part_huge], customNames = Absent\<rparr>)) = 400
   \<and> catalog (fst (post_upload default_config env0 sample
               \<lparr>pdfFiles = [part_huge], customNames = Absent\<rparr>)) = catalog sample"
proof -
  have a1: "part_text \<in> set (pdfFiles \<lparr>pdfFiles = [part_pdf, part_text], customNames = Absent\<rparr>)"
    by simp
  have a2: "mimetype part_text \<notin> set allowedMimes \<or> MAX_FILE_SIZE default_config < fsize part_text"
    by (simp add: part_text_def allowedMimes_def)
  have b1: "part_huge \<in> set (pdfFiles \<lparr>pdfFiles = [part_huge], customNames = Absent\<rparr>)" by simp
  have b2: "mimetype part_huge \<notin> set allowedMimes \<or> MAX_FILE_SIZE default_config < fsize part_huge"
    by (simp add: part_huge_def default_config_def)
  have c: "mimetype part_text \<notin> set allowedMimes" "MAX_FILE_SIZE default_config < fsize part_huge"
    by (simp_all add: part_text_def allowedMimes_def part_huge_def default_config_def)
  from upload_rejects_invalid [OF a1 a2, of env0 sample] upload_rejects_invalid [OF b1 b2, of env0 sample] c
  show ?thesis by simp
qed
text \<open>
  \<open>replace\<close> with a text pattern replaces the first occurrence: where \<open>.pdf\<close> occurs
  only at the end of a name, or not at all, that strips the extension.
\<close>

lemma replace_first_absent: "\<not> is_substring pat s \<Longrightarrow> replace_first pat rep s = s"
proof (induction s)
  case Nil
  then show ?case by simp
next
  case (Cons c cs)
  then show ?case by simp
qed
lemma replace_first_occurrence:
  assumes "\<not> is_substring pat (pre @ butlast pat)"
  shows "replace_first pat rep (pre @ pat @ post) = pre @ rep @ post"
  using assms
proof (induction pre)
  case Nil
  have ne: "pat \<noteq> []" using Nil is_substring_Nil by auto
  then obtain c cs where pat: "pat = c # cs" by (cases pat) auto
  then show ?case by simp
next
  case (Cons a pre)
  have ne: "pat \<noteq> []" using Cons.prems is_substring_Nil by auto
  have np: "\<not> prefix pat (a # pre @ pat @ post)"
  proof
    assume p: "prefix pat (a # pre @ pat @ post)"
    have q: "prefix (a # pre @ butlast pat) (a # pre @ pat @ post)"
      using ne by (metis append_butlast_last_id append_Cons append_assoc prefixI)
    have "length pat \<le> length (a # pre @ butlast pat)" by simp
    with p q have "prefix pat (a # pre @ butlast pat)"
      by (metis prefix_length_prefix)
    then have "is_substring pat ((a # pre) @ butlast pat)" by simp
    with Cons.prems show False by simp
  qed
  have "\<not> is_substring pat (pre @ butlast pat)" using Cons.prems by simp
  from Cons.IH [OF this] np show ?case by simp
qed
lemma is_substring_last:
  assumes "is_substring pat s" "\<not> is_substring pat (butlast s)"
  shows "suffix pat s"
proof -
  from assms(1) obtain pre post where s: "s = pre @ pat @ post" by (auto simp: is_substring_iff)
  show ?thesis
  proof (cases "post = []")
    case True
    with s show ?thesis by (simp add: suffix_def)
  next
    case False
    then have "butlast s = pre @ pat @ butlast post" using s by (simp add: butlast_append)
    then have "is_substring pat (butlast s)" by (auto simp: is_substring_iff)
    with assms(2) show ?thesis by simp
  qed
qed
lemma replace_first_strip:
  assumes "\<not> is_substring ''.pdf'' (butlast name)"
  shows "replace_first ''.pdf'' [] name = strip_pdf_extension name"
proof (cases "suffix ''.pdf'' name")
  case True
  then obtain b where name: "name = b @ ''.pdf''" by (auto simp: suffix_def)
  then have "butlast name = b @ butlast ''.pdf''" by (simp add: butlast_append)
  with assms have "\<not> is_substring ''.pdf'' (b @ butlast ''.pdf'')" by simp
  from replace_first_occurrence [OF this, of "[]" "[]"] True show ?thesis
    by (simp add: strip_pdf_extension_def name)
next
  case False
  with is_substring_last [OF _ assms] have "\<not> is_substring ''.pdf'' name" by blast
  from replace_first_absent [OF this] False show ?thesis
    by (simp add: strip_pdf_extension_def)
qed
lemma upload_alpha_beta:
  "status (snd (upload_handler env0 sample [file_alpha, file_beta] (Parsed ['' Alpha '']))) = 200"
  by (simp add: upload_eval uuid_in_env0)
text \<open>
  The claim C3 has the custom name trimmed and the extension stripped. The server stores
  the name \<open>Alpha\<close> with a blank on either side as it is, and removes from
  \<open>a.pdf.b.pdf\<close> the first \<open>.pdf\<close>, not the last.
\<close>

theorem custom_name_trimmed_counterexample:
  "status (snd (upload_handler env0 sample [file_alpha, file_twice] (Parsed ['' Alpha '']))) = 200
   \<and> map customName (files (snd (upload_handler env0 sample [file_alpha, file_twice]
                                    (Parsed ['' Alpha ''])))) = ['' Alpha '', ''a.b.pdf'']
   \<and> map custom_name (drop 3 (catalog (fst (upload_handler env0 sample [file_alpha, file_twice]
                                    (Parsed ['' Alpha '']))))) = ['' Alpha '', ''a.b.pdf'']
   \<and> trim '' Alpha '' = ''Alpha''
   \<and> strip_pdf_extension ''a.pdf.b.pdf'' = ''a.pdf.b''"
  by (simp add: upload_eval uuid_in_env0 trim_def is_space_def strip_pdf_extension_def suffix_to_prefix)
text \<open>
  C3, as amended. For every item of an accepted upload, the custom name of its result is
  the custom name that the caller supplied at the position of the item, exactly as
  supplied, when that name is present and not empty; otherwise it is the declared name of
  the item with its extension \<open>.pdf\<close> stripped, provided \<open>.pdf\<close> occurs in the declared
  name nowhere but at its end. The catalog row of the item holds the first 255 characters
  of that custom name.
\<close>

theorem upload_custom_name:
  assumes "status (snd (upload_handler ev s fs field)) = 200"
    and "customNamesArray_of field = Some names"
    and "j < length fs"
  shows "(j < length names \<and> names ! j \<noteq> [] \<longrightarrow>
            customName (files (snd (upload_handler ev s fs field)) ! j) = names ! j)
       \<and> (\<not> (j < length names \<and> names ! j \<noteq> [])
            \<and> \<not> is_substring ''.pdf'' (butlast (originalname (fs ! j))) \<longrightarrow>
            customName (files (snd (upload_handler ev s fs field)) ! j)
              = strip_pdf_extension (originalname (fs ! j)))
       \<and> custom_name (catalog (fst (upload_handler ev s fs field)) ! (length (catalog s) + j))
           = take 255 (customName (files (snd (upload_handler ev s fs field)) ! j))"
proof -
  obtain tbl' out where loop: "upload_loop ev names 0 fs (catalog s) [] = (tbl', out)"
    by (cases "upload_loop ev names 0 fs (catalog s) []") auto
  have ne: "fs \<noteq> []" using assms(3) by auto
  from customNamesArray_of_Some [OF assms(2)] have nm: "field \<noteq> Malformed" by simp
  from assms(1) obtain results where out: "out = Inr results"
    using loop ne nm assms(2)
    by (cases out) (auto simp: upload_handler_def upload_failure_def)
  have h: "upload_handler ev s fs field =
             (s\<lparr>catalog := tbl'\<rparr>,
              \<lparr>status = 200, success = True, message = Some (Upload_realizado (length results)),
               files = results, pagination = None, error = None\<rparr>)"
    using loop ne nm assms(2) out by (simp add: upload_handler_def)
  from upload_loop_Inr [OF loop [unfolded out]] obtain new rs where
    r: "tbl' = catalog s @ new" "results = rs" "length new = length fs"
       "\<forall>j < length fs. customName (rs ! j) = customName_of names (0 + j) (fs ! j)
          \<and> custom_name (new ! j) = take 255 (customName_of names (0 + j) (fs ! j))"
    by auto
  from r(4) assms(3) have c: "customName (rs ! j) = customName_of names j (fs ! j)"
    "custom_name (new ! j) = take 255 (customName_of names j (fs ! j))" by simp_all
  have 1: "j < length names \<and> names ! j \<noteq> [] \<longrightarrow> customName (rs ! j) = names ! j"
    by (simp add: c customName_of_def)
  have 2: "\<not> (j < length names \<and> names ! j \<noteq> [])
            \<and> \<not> is_substring ''.pdf'' (butlast (originalname (fs ! j))) \<longrightarrow>
            customName (rs ! j) = strip_pdf_extension (originalname (fs ! j))"
    using replace_first_strip [of "originalname (fs ! j)"] by (auto simp: c customName_of_def)
  have 3: "custom_name (tbl' ! (length (catalog s) + j)) = take 255 (customName (rs ! j))"
    by (simp add: r(1) c nth_append)
  from 1 2 3 show ?thesis by (simp add: h r(2))
qed
theorem upload_custom_name_witness:
  "status (snd (upload_handler env0 sample [file_alpha, file_beta] (Parsed ['' Alpha '']))) = 200
   \<and> customNamesArray_of (Parsed ['' Alpha '']) = Some ['' Alpha '']
   \<and> (0::nat) < length [file_alpha, file_beta] \<and> (1::nat) < length [file_alpha, file_beta]
   \<and> customName (files (snd (upload_handler env0 sample [file_alpha, file_beta]
                                 (Parsed ['' Alpha '']))) ! 0) = '' Alpha ''
   \<and> customName (files (snd (upload_handler env0 sample [file_alpha, file_beta]
                                 (Parsed ['' Alpha '']))) ! 1) = ''b''
   \<and> custom_name (catalog (fst (upload_handler env0 sample [file_alpha, file_beta]
                                 (Parsed ['' Alpha '']))) ! (length (catalog sample) + 1)) = ''b''"
proof -
  let ?u = "upload_handler env0 sample [file_alpha, file_beta] (Parsed ['' Alpha ''])"
  have h1: "status (snd ?u) = 200" by (rule upload_alpha_beta)
  have h2: "customNamesArray_of (Parsed ['' Alpha '']) = Some ['' Alpha '']"
    by (simp add: customNamesArray_of_def)
  have h3: "(0::nat) < length [file_alpha, file_beta]" "(1::nat) < length [file_alpha, file_beta]"
    by simp_all
  have n: "\<not> is_substring ''.pdf'' (butlast (originalname ([file_alpha, file_beta] ! 1)))"
    "strip_pdf_extension (originalname ([file_alpha, file_beta] ! 1)) = ''b''"
    by (simp_all add: file_beta_def strip_pdf_extension_def suffix_to_prefix)
  from upload_custom_name [OF h1 h2 h3(1)] have a: "customName (files (snd ?u) ! 0) = '' Alpha ''"
    by simp
  from upload_custom_name [OF h1 h2 h3(2)] n have b: "customName (files (snd ?u) ! 1) = ''b''"
    "custom_name (catalog (fst ?u) ! (length (catalog sample) + 1)) = take 255 (customName (files (snd ?u) ! 1))"
    by simp_all
  from b have c: "custom_name (catalog (fst ?u) ! (length (catalog sample) + 1)) = ''b''" by simp
  from h1 h2 h3 a b(1) c show ?thesis by blast
qed

end
